theory Spec2Isabelle
  imports Complex_Main "HOL-Library.Multiset"
begin

section \<open>Configuration\<close>

text \<open>
  The command-line options (\<open>flags\<close>) read by \<open>learn\<close>, \<open>train\<close> and
  \<open>init_models_and_states\<close>. Python integers are unbounded (\<open>int\<close>); the float options
  are modelled by real numbers, so rounding is not part of the model.
\<close>

record flags =
  no_reward :: bool
  intrinsic_reward_coef :: real
  discounting :: real
  unroll_length :: int
  batch_size :: int
  total_frames :: int
  num_actors :: int
  num_buffers :: int
  num_threads :: int
  disable_checkpoint :: bool
  checkpoint :: "string option"
  model :: string
  continue_learning :: bool

section \<open>The learning-rate schedule (init_models_and_states.py, lr_lambda)\<close>

text \<open>
  \<^verbatim>\<open>x = np.maximum(flags.total_frames, 1e8)\<close>,
  \<^verbatim>\<open>return 1 - min(epoch * flags.unroll_length * flags.batch_size, x) / x\<close>.
\<close>

definition lr_lambda :: "flags \<Rightarrow> int \<Rightarrow> real" where
  "lr_lambda flags epoch =
     (let x = max (real_of_int (total_frames flags)) 100000000
      in 1 - min (real_of_int (epoch * unroll_length flags * batch_size flags)) x / x)"

section \<open>Tensors\<close>

text \<open>
  A tensor of shape (T, B) is the list of its T rows, each a list of B entries. The slice
  \<^verbatim>\<open>[1:]\<close> drops the first row (\<open>tl\<close>, which like the slice maps the empty tensor to
  itself). The operations below are elementwise; \<open>learn\<close> applies them to tensors of one
  shape only, which \<open>same_shape\<close> expresses.
\<close>

type_synonym tensor = "real list list"

definition same_shape :: "'a list list \<Rightarrow> 'b list list \<Rightarrow> bool" where
  "same_shape xs ys = (map length xs = map length ys)"

definition tensor_add :: "tensor \<Rightarrow> tensor \<Rightarrow> tensor" where
  "tensor_add xs ys = map2 (map2 (+)) xs ys"

definition tensor_mul :: "tensor \<Rightarrow> tensor \<Rightarrow> tensor" where
  "tensor_mul xs ys = map2 (map2 (*)) xs ys"

definition tensor_scale :: "tensor \<Rightarrow> real \<Rightarrow> tensor" where
  "tensor_scale xs c = map (map (\<lambda>x. x * c)) xs"

text \<open>\<^verbatim>\<open>torch.clamp(x, lo, hi)\<close> is \<open>min (max x lo) hi\<close> on every entry.\<close>

definition torch_clamp :: "tensor \<Rightarrow> real \<Rightarrow> real \<Rightarrow> tensor" where
  "torch_clamp xs lo hi = map (map (\<lambda>x. min (max x lo) hi)) xs"

text \<open>
  \<^verbatim>\<open>torch.norm(a - b, dim=2, p=2)\<close> on two tensors of shape (T, B, D): the Euclidean
  norm of the difference along the last axis.
\<close>

definition torch_norm_diff :: "real list list list \<Rightarrow> real list list list \<Rightarrow> tensor" where
  "torch_norm_diff a b =
     map2 (map2 (\<lambda>u v. sqrt (sum_list (map2 (\<lambda>x y. (x - y) * (x - y)) u v)))) a b"

text \<open>
  In-place operations act on tensor objects. A store maps an object to its current
  contents; a program variable holds an object, so two variables bound to one object see
  each other's updates.
\<close>

datatype tensor_obj = Bonus_reward_tail | Rnd_error

type_synonym store = "tensor_obj \<Rightarrow> tensor"

text \<open>\<^verbatim>\<open>a *= b\<close> for tensors and \<^verbatim>\<open>a *= c\<close> for a scalar: only \<open>a\<close> changes.\<close>

definition imul :: "store \<Rightarrow> tensor_obj \<Rightarrow> tensor_obj \<Rightarrow> store" where
  "imul s a b = s(a := tensor_mul (s a) (s b))"

definition imul_scalar :: "store \<Rightarrow> tensor_obj \<Rightarrow> real \<Rightarrow> store" where
  "imul_scalar s a c = s(a := tensor_scale (s a) c)"

section \<open>The learning step up to the V-trace call\<close>

text \<open>
  The fields of a batch that decide the \<open>rewards\<close> and \<open>discounts\<close> arguments of
  \<^verbatim>\<open>vtrace.from_logits\<close>; each has T + 1 rows. \<open>done_flag\<close> is the batch entry
  \<^verbatim>\<open>'done'\<close>.
\<close>

record batch =
  reward :: tensor
  bonus_reward :: tensor
  real_done :: "bool list list"
  done_flag :: "bool list list"

record vtrace_inputs =
  total_rewards :: tensor
  clipped_rewards :: tensor
  discounts :: tensor
  final_store :: store

text \<open>
  e3b.py, \<open>learn\<close>, lines 51 to 93. \<open>intrinsic_rewards\<close> is the view
  \<^verbatim>\<open>batch['bonus_reward'][1:]\<close>, scaled in place by the coefficient; after
  \<^verbatim>\<open>batch = {key: tensor[1:] ...}\<close> the rewards and the termination flags are the
  slices \<^verbatim>\<open>[1:]\<close> too.
\<close>

definition learn :: "flags \<Rightarrow> batch \<Rightarrow> vtrace_inputs" where
  "learn flags b =
     (let s0 = (\<lambda>_. [])(Bonus_reward_tail := tl (bonus_reward b));
          intrinsic_rewards = Bonus_reward_tail;
          s1 = imul_scalar s0 intrinsic_rewards (intrinsic_reward_coef flags);
          rewards = tl (reward b);
          total = (if no_reward flags then s1 intrinsic_rewards
                   else if intrinsic_reward_coef flags > 0
                        then tensor_add rewards (s1 intrinsic_rewards)
                        else rewards)
      in \<lparr>total_rewards = total,
          clipped_rewards = torch_clamp total (- 1) 1,
          discounts = map (map (\<lambda>d. \<bar>1 - of_bool d\<bar> * discounting flags)) (tl (real_done b)),
          final_store = s1\<rparr>)"

text \<open>
  RNDxE3B.py, \<open>learn\<close>, lines 53 to 108. \<open>episodic_bonus\<close> and \<open>intrinsic_rewards\<close>
  name one object, the view \<^verbatim>\<open>batch['bonus_reward'][1:]\<close>; \<open>intrinsic_rewards_rnd\<close>
  is the fresh tensor returned by \<^verbatim>\<open>torch.norm\<close>, and
  \<^verbatim>\<open>intrinsic_rewards_rnd *= intrinsic_rewards\<close> updates that tensor. The embeddings
  of the two networks (external models) are parameters.
\<close>

definition learn_RNDxE3B ::
  "flags \<Rightarrow> batch \<Rightarrow> real list list list \<Rightarrow> real list list list \<Rightarrow> vtrace_inputs" where
  "learn_RNDxE3B flags b random_embedding_next predicted_embedding_next =
     (let s0 = (\<lambda>_. [])(Bonus_reward_tail := tl (bonus_reward b));
          episodic_bonus = Bonus_reward_tail;
          intrinsic_rewards = episodic_bonus;
          s1 = s0(Rnd_error := torch_norm_diff predicted_embedding_next random_embedding_next);
          intrinsic_rewards_rnd = Rnd_error;
          s2 = imul s1 intrinsic_rewards_rnd intrinsic_rewards;
          s3 = imul_scalar s2 intrinsic_rewards (intrinsic_reward_coef flags);
          rewards = tl (reward b);
          total = (if no_reward flags then s3 intrinsic_rewards
                   else if intrinsic_reward_coef flags > 0
                        then tensor_add rewards (s3 intrinsic_rewards)
                        else rewards)
      in \<lparr>total_rewards = total,
          clipped_rewards = torch_clamp total (- 1) 1,
          discounts = map (map (\<lambda>d. \<bar>1 - of_bool d\<bar> * discounting flags)) (tl (real_done b)),
          final_store = s3\<rparr>)"

text \<open>A configuration and a batch for the reward-composition scenario.\<close>

definition scenario_flags :: flags where
  "scenario_flags =
     \<lparr>no_reward = False, intrinsic_reward_coef = 1 / 2, discounting = 99 / 100,
      unroll_length = 3, batch_size = 1, total_frames = 30, num_actors = 2,
      num_buffers = 4, num_threads = 1, disable_checkpoint = False,
      checkpoint = None, model = ''e3b'', continue_learning = False\<rparr>"

definition scenario_batch :: batch where
  "scenario_batch =
     \<lparr>reward = [[0], [0], [0], [1]],
      bonus_reward = [[0], [2 / 10], [3 / 10], [1 / 10]],
      real_done = [[False], [False], [False], [True]],
      done_flag = [[False], [False], [True], [True]]\<rparr>"

text \<open>A long run: 3200 frames per learning step, target 50 million frames.\<close>

definition long_run_flags :: flags where
  "long_run_flags = scenario_flags\<lparr>unroll_length := 100, batch_size := 32, total_frames := 50000000\<rparr>"


text \<open>Embeddings of the two RND networks for the scenario: distillation error 2 at every step.\<close>

definition scenario_random_embedding :: "real list list list" where
  "scenario_random_embedding = [[[0]], [[0]], [[0]]]"

definition scenario_predicted_embedding :: "real list list list" where
  "scenario_predicted_embedding = [[[2]], [[2]], [[2]]]"


section \<open>Model initialisation and checkpoint loading (init_models_and_states.py)\<close>

datatype error = NotImplementedError | KeyError string | FileNotFoundError string

text \<open>
  A \<open>state_dict\<close> is the serialised state of one module, optimiser or scheduler; its
  contents are opaque. A checkpoint file holds a dictionary from field names to such
  states (its \<^verbatim>\<open>'flags'\<close> entry, which no load path reads, is left out), and the file
  system maps a path to the checkpoint stored there.
\<close>

type_synonym state_dict = nat
type_synonym checkpoint_dict = "string \<rightharpoonup> state_dict"
type_synonym file_system = "string \<rightharpoonup> checkpoint_dict"

text \<open>The dictionary \<open>init_models_and_states\<close> returns (buffers and LSTM states left out).\<close>

record models_and_states =
  actor_model :: state_dict
  learner_model :: state_dict
  actor_exploration_model :: "state_dict option"
  learner_exploration_model :: "state_dict option"
  state_embedding_model :: state_dict
  forward_dynamics_model :: state_dict
  inverse_dynamics_model :: state_dict
  random_target_network :: state_dict
  predictor_network :: state_dict
  learner_model_optimizer :: state_dict
  state_embedding_optimizer :: state_dict
  inverse_dynamics_optimizer :: state_dict
  forward_dynamics_optimizer :: state_dict
  predictor_optimizer :: state_dict
  scheduler :: state_dict

text \<open>\<^verbatim>\<open>torch.load(path)\<close>: the stored dictionary, or an error when there is no file.\<close>

definition torch_load :: "file_system \<Rightarrow> string \<Rightarrow> error + checkpoint_dict" where
  "torch_load fs path =
     (case fs path of None \<Rightarrow> Inl (FileNotFoundError path) | Some ck \<Rightarrow> Inr ck)"

text \<open>
  \<^verbatim>\<open>if key in checkpoint: target.load_state_dict(checkpoint[key])\<close>, the guarded load
  of lines 151 to 175.
\<close>

definition load_if_present ::
  "checkpoint_dict \<Rightarrow> string \<Rightarrow> (state_dict \<Rightarrow> 'a \<Rightarrow> 'a) \<Rightarrow> 'a \<Rightarrow> 'a" where
  "load_if_present ck key load_state_dict ms =
     (case ck key of None \<Rightarrow> ms | Some p \<Rightarrow> load_state_dict p ms)"

text \<open>
  \<open>init_models_and_states\<close>. The environment, the networks, the optimisers and the
  scheduler are built by external code, taken to succeed; \<open>fresh\<close> is what they produce
  (with no exploration model, lines 67 and 68). Lines 69 to 83 load the exploration model:
  \<^verbatim>\<open>checkpoint["actor_model_state_dict"]\<close> and
  \<^verbatim>\<open>checkpoint["actor_exploration_model_state_dict"]\<close> are plain subscripts, which raise
  \<open>KeyError\<close> on a missing key. Lines 149 to 175 reload the file and load each field
  behind a membership test.
\<close>

definition init_models_and_states ::
  "flags \<Rightarrow> file_system \<Rightarrow> models_and_states \<Rightarrow> error + models_and_states" where
  "init_models_and_states flags fs fresh =
     (case (case checkpoint flags of
              None \<Rightarrow> Inr None
            | Some path \<Rightarrow>
                if length path > 0 then
                  if model flags = ''vanilla'' then Inl NotImplementedError
                  else (case torch_load fs path of
                          Inl e \<Rightarrow> Inl e
                        | Inr ck \<Rightarrow>
                            if \<not> continue_learning flags then
                              (case ck ''actor_model_state_dict'' of
                                 None \<Rightarrow> Inl (KeyError ''actor_model_state_dict'')
                               | Some p \<Rightarrow> Inr (Some p))
                            else
                              (case ck ''actor_exploration_model_state_dict'' of
                                 None \<Rightarrow> Inl (KeyError ''actor_exploration_model_state_dict'')
                               | Some p \<Rightarrow> Inr (Some p)))
                else Inr None) of
        Inl e \<Rightarrow> Inl e
      | Inr exploration \<Rightarrow>
          (let ms = fresh\<lparr>actor_exploration_model := exploration,
                          learner_exploration_model := exploration\<rparr>
           in case checkpoint flags of
                None \<Rightarrow> Inr ms
              | Some path \<Rightarrow>
                  if continue_learning flags then
                    (case torch_load fs path of
                       Inl e \<Rightarrow> Inl e
                     | Inr ck \<Rightarrow> Inr (
                         (load_if_present ck ''scheduler_state_dict''
                            (\<lambda>p m. m\<lparr>scheduler := p\<rparr>)
                          \<circ> load_if_present ck ''forward_dynamics_optimizer_state_dict''
                            (\<lambda>p m. m\<lparr>forward_dynamics_optimizer := p\<rparr>)
                          \<circ> load_if_present ck ''inverse_dynamics_optimizer_state_dict''
                            (\<lambda>p m. m\<lparr>inverse_dynamics_optimizer := p\<rparr>)
                          \<circ> load_if_present ck ''predictor_optimizer_state_dict''
                            (\<lambda>p m. m\<lparr>predictor_optimizer := p\<rparr>)
                          \<circ> load_if_present ck ''state_embedding_optimizer_state_dict''
                            (\<lambda>p m. m\<lparr>state_embedding_optimizer := p\<rparr>)
                          \<circ> load_if_present ck ''learner_model_optimizer_state_dict''
                            (\<lambda>p m. m\<lparr>learner_model_optimizer := p\<rparr>)
                          \<circ> load_if_present ck ''predictor_network_state_dict''
                            (\<lambda>p m. m\<lparr>predictor_network := p\<rparr>)
                          \<circ> load_if_present ck ''random_target_network_state_dict''
                            (\<lambda>p m. m\<lparr>random_target_network := p\<rparr>)
                          \<circ> load_if_present ck ''forward_dynamics_model_state_dict''
                            (\<lambda>p m. m\<lparr>forward_dynamics_model := p\<rparr>)
                          \<circ> load_if_present ck ''inverse_dynamics_model_state_dict''
                            (\<lambda>p m. m\<lparr>inverse_dynamics_model := p\<rparr>)
                          \<circ> load_if_present ck ''state_embedding_model_state_dict''
                            (\<lambda>p m. m\<lparr>state_embedding_model := p\<rparr>)
                          \<circ> load_if_present ck ''actor_model_state_dict''
                            (\<lambda>p m. m\<lparr>actor_model := p, learner_model := p\<rparr>)) ms))
                  else Inr ms))"

section \<open>The training driver (e3b.py, train)\<close>

text \<open>\<^verbatim>\<open>range(n)\<close> for a Python integer: empty when \<open>n \<le> 0\<close>.\<close>

definition py_range :: "int \<Rightarrow> nat list" where
  "py_range n = [0..<nat n]"

text \<open>
  What \<open>train\<close> does to the outside, in program order. \<open>Put_free\<close> is
  \<^verbatim>\<open>free_queue.put\<close>, with \<open>None\<close> the shutdown sentinel.
\<close>

datatype event =
    Open_logger
  | Start_actor nat
  | Put_free "nat option"
  | Start_thread nat
  | Save_checkpoint
  | Join_thread nat
  | Join_actor nat
  | Close_logger

text \<open>
  The main thread's wait loop (lines 247 to 269) is driven by the clock and by the learner
  threads: it either runs until the frame target is reached or is cut short by a
  \<open>KeyboardInterrupt\<close>. In both cases \<open>k\<close> counts the times the save interval had
  elapsed and the loop called \<open>checkpoint\<close>.
\<close>

datatype wait_outcome = Completed nat | Interrupted nat

text \<open>The nested function \<open>checkpoint\<close> (lines 229 to 244).\<close>

definition checkpoint_events :: "flags \<Rightarrow> event list" where
  "checkpoint_events flags = (if disable_checkpoint flags then [] else [Save_checkpoint])"

text \<open>Lines 175 to 227: actors are started first, then the free queue is filled.\<close>

definition startup_events :: "flags \<Rightarrow> event list" where
  "startup_events flags =
     map Start_actor (py_range (num_actors flags))
     @ map (\<lambda>m. Put_free (Some m)) (py_range (num_buffers flags))
     @ map Start_thread (py_range (num_threads flags))"

text \<open>The \<^verbatim>\<open>finally\<close> clause, lines 277 to 281.\<close>

definition finally_events :: "flags \<Rightarrow> event list" where
  "finally_events flags =
     map (\<lambda>_. Put_free None) (py_range (num_actors flags))
     @ map Join_actor (py_range (num_actors flags))"

text \<open>
  \<open>train\<close>: the events and the result. An error of \<open>init_models_and_states\<close> leaves
  \<open>train\<close> at line 159. On \<open>KeyboardInterrupt\<close> the handler returns, so after the
  \<^verbatim>\<open>finally\<close> clause the function is left; otherwise the \<^verbatim>\<open>else\<close> clause joins the
  threads, the \<^verbatim>\<open>finally\<close> clause runs, and lines 283 and 284 follow.
\<close>

definition train ::
  "flags \<Rightarrow> file_system \<Rightarrow> models_and_states \<Rightarrow> wait_outcome \<Rightarrow> event list \<times> (error + unit)" where
  "train flags fs fresh w =
     (case init_models_and_states flags fs fresh of
        Inl e \<Rightarrow> ([Open_logger], Inl e)
      | Inr ms \<Rightarrow>
          (case w of
             Interrupted k \<Rightarrow>
               (Open_logger # startup_events flags
                  @ concat (replicate k (checkpoint_events flags))
                  @ finally_events flags,
                Inr ())
           | Completed k \<Rightarrow>
               (Open_logger # startup_events flags
                  @ concat (replicate k (checkpoint_events flags))
                  @ map Join_thread (py_range (num_threads flags))
                  @ finally_events flags
                  @ checkpoint_events flags
                  @ [Close_logger],
                Inr ())))"

text \<open>
  The checkpoint \<open>checkpoint\<close> of e3b.py writes (lines 235 to 244): seven states, and
  no \<^verbatim>\<open>'actor_exploration_model_state_dict'\<close>.
\<close>

definition e3b_checkpoint :: "models_and_states \<Rightarrow> checkpoint_dict" where
  "e3b_checkpoint ms =
     map_of
       [(''actor_model_state_dict'', actor_model ms),
        (''state_embedding_model_state_dict'', state_embedding_model ms),
        (''inverse_dynamics_model_state_dict'', inverse_dynamics_model ms),
        (''learner_model_optimizer_state_dict'', learner_model_optimizer ms),
        (''state_embedding_optimizer_state_dict'', state_embedding_optimizer ms),
        (''inverse_dynamics_optimizer_state_dict'', inverse_dynamics_optimizer ms),
        (''scheduler_state_dict'', scheduler ms)]"

text \<open>Freshly built models and the models of an earlier run, for concrete runs.\<close>

definition scenario_fresh :: models_and_states where
  "scenario_fresh =
     \<lparr>actor_model = 1, learner_model = 2, actor_exploration_model = None,
      learner_exploration_model = None, state_embedding_model = 3,
      forward_dynamics_model = 4, inverse_dynamics_model = 5, random_target_network = 6,
      predictor_network = 7, learner_model_optimizer = 8, state_embedding_optimizer = 9,
      inverse_dynamics_optimizer = 10, forward_dynamics_optimizer = 11,
      predictor_optimizer = 12, scheduler = 13\<rparr>"

definition scenario_trained :: models_and_states where
  "scenario_trained =
     \<lparr>actor_model = 101, learner_model = 101, actor_exploration_model = None,
      learner_exploration_model = None, state_embedding_model = 103,
      forward_dynamics_model = 104, inverse_dynamics_model = 105, random_target_network = 106,
      predictor_network = 107, learner_model_optimizer = 108, state_embedding_optimizer = 109,
      inverse_dynamics_optimizer = 110, forward_dynamics_optimizer = 111,
      predictor_optimizer = 112, scheduler = 113\<rparr>"

definition scenario_fs :: file_system where
  "scenario_fs = [''model.tar'' \<mapsto> e3b_checkpoint scenario_trained]"


section \<open>The learner threads (e3b.py, batch_and_learn)\<close>

text \<open>
  Every learner thread runs \<open>batch_and_learn\<close>: test \<^verbatim>\<open>frames < flags.total_frames\<close>,
  take a batch, call \<open>learn\<close>, then, holding the lock of \<open>batch_and_learn\<close>, log the
  statistics and add \<^verbatim>\<open>flags.unroll_length * flags.batch_size\<close> to the shared counter
  \<open>frames\<close>. A thread is at the loop test, inside an iteration, or past the loop.
\<close>

datatype pc = At_check | In_batch | Exited

text \<open>
  The shared counter, the number of statistics records logged so far (one per completed
  learning step), and the position of every thread.
\<close>

record learners =
  frames :: int
  logged :: nat
  pcs :: "pc list"

text \<open>\<^verbatim>\<open>frames, stats = 0, {}\<close>, and one thread per element of \<^verbatim>\<open>range(flags.num_threads)\<close>.\<close>

definition initial_learners :: "flags \<Rightarrow> learners" where
  "initial_learners flags =
     \<lparr>frames = 0, logged = 0, pcs = map (\<lambda>_. At_check) (py_range (num_threads flags))\<rparr>"

text \<open>
  One step of thread \<open>i\<close>: the loop test, or the rest of the iteration (\<open>get_batch\<close> and
  \<open>learn\<close> are taken to return; the update of \<open>frames\<close> is atomic under the lock).
\<close>

definition thread_step :: "flags \<Rightarrow> nat \<Rightarrow> learners \<Rightarrow> learners" where
  "thread_step flags i s =
     (if i < length (pcs s) then
        (case pcs s ! i of
           At_check \<Rightarrow>
             if frames s < total_frames flags
             then s\<lparr>pcs := (pcs s)[i := In_batch]\<rparr>
             else s\<lparr>pcs := (pcs s)[i := Exited]\<rparr>
         | In_batch \<Rightarrow>
             s\<lparr>frames := frames s + unroll_length flags * batch_size flags,
               logged := Suc (logged s),
               pcs := (pcs s)[i := At_check]\<rparr>
         | Exited \<Rightarrow> s)
      else s)"

text \<open>The threads interleave as a schedule says: the list of the threads that step, in order.\<close>

fun run_threads :: "flags \<Rightarrow> nat list \<Rightarrow> learners \<Rightarrow> learners" where
  "run_threads flags [] s = s"
| "run_threads flags (i # sched) s = run_threads flags sched (thread_step flags i s)"

text \<open>
  Measures and invariants of the interleaved loop, used in the proofs below. First, the
  number of threads inside an iteration.
\<close>

definition in_batch :: "learners \<Rightarrow> nat" where
  "in_batch s = length (filter (\<lambda>p. p = In_batch) (pcs s))"

text \<open>Threads inside an iteration entered it below the target, which bounds the counter.\<close>

definition bounded :: "flags \<Rightarrow> learners \<Rightarrow> bool" where
  "bounded flags s \<longleftrightarrow>
     frames s + int (in_batch s) * (unroll_length flags * batch_size flags)
       \<le> max 0 (total_frames flags - 1)
          + int (length (pcs s)) * (unroll_length flags * batch_size flags)"

text \<open>The steps a thread still takes once the target is reached.\<close>

fun rank :: "pc \<Rightarrow> nat" where
  "rank In_batch = 2"
| "rank At_check = 1"
| "rank Exited = 0"

text \<open>A thread is past the loop only when the target is reached.\<close>

definition exited_ok :: "flags \<Rightarrow> learners \<Rightarrow> bool" where
  "exited_ok flags s \<longleftrightarrow> (Exited \<in> set (pcs s) \<longrightarrow> total_frames flags \<le> frames s)"

text \<open>The steps a thread still takes in an iteration.\<close>

fun todo :: "pc \<Rightarrow> nat" where
  "todo At_check = 2"
| "todo In_batch = 1"
| "todo Exited = 0"

text \<open>
  A measure that every step of a thread still in the loop decreases, given a bound \<open>B\<close>
  on the learning steps.
\<close>

definition potential :: "nat \<Rightarrow> nat \<Rightarrow> learners \<Rightarrow> nat" where
  "potential B i s = 2 * (B - logged s) + todo (pcs s ! i)"

text \<open>
  With a negative step, a thread inside an iteration has seen the counter below the target,
  and the counter has only fallen since.
\<close>

definition below_in_batch :: "flags \<Rightarrow> learners \<Rightarrow> bool" where
  "below_in_batch flags s \<longleftrightarrow> (In_batch \<in> set (pcs s) \<longrightarrow> frames s < total_frames flags)"

text \<open>The counter has reached the target, for good.\<close>

definition target_reached :: "flags \<Rightarrow> learners \<Rightarrow> bool" where
  "target_reached flags s \<longleftrightarrow>
     total_frames flags \<le> frames s
     \<and> (unroll_length flags * batch_size flags < 0 \<longrightarrow> In_batch \<notin> set (pcs s))"

text \<open>Two learner threads, three frames per learning step, a target of four frames.\<close>

definition loop_flags :: flags where
  "loop_flags = scenario_flags\<lparr>total_frames := 4, num_threads := 2\<rparr>"

section \<open>The buffer pool\<close>

text \<open>
  The free queue holds slot indices and shutdown sentinels (\<open>None\<close>), the full queue slot
  indices. A slot taken from a queue is owned by the worker that took it, an actor or a
  learner thread, until that worker puts it into the other queue. An actor that has
  received a sentinel has stopped.
\<close>

record pool =
  free_queue :: "nat option list"
  full_queue :: "nat list"
  actor_slots :: "(nat \<times> nat) list"
  learner_slots :: "(nat \<times> nat) list"
  stopped :: "nat list"

definition empty_pool :: pool where
  "empty_pool = \<lparr>free_queue = [], full_queue = [], actor_slots = [], learner_slots = [],
                  stopped = []\<rparr>"

text \<open>
  The operations on the pool: \<open>Train_put\<close> is \<^verbatim>\<open>free_queue.put\<close> of \<open>train\<close>; the others
  are the operations of actor \<open>a\<close> and learner thread \<open>l\<close>.
\<close>

datatype pool_op =
    Train_put "nat option"
  | Acquire_free nat
  | Publish_full nat nat
  | Acquire_full nat
  | Release nat nat

text \<open>
  Modelled from the spec: \<open>act\<close> and \<open>get_batch\<close> (src/utils.py) are not among the
  sources, so the four worker operations follow section 4.1 of the specification.
  \<open>acquireFree\<close> takes the head of the free queue (a sentinel stops the actor) and
  \<open>acquireFull\<close> the head of the full queue, both waiting while the queue is empty;
  \<open>publishFull\<close> moves a slot the actor owns to the full queue; \<open>release\<close> returns a slot
  the learner owns to the free queue. An operation that has to wait, or that a worker
  cannot perform (a slot it does not own, an actor that has stopped), leaves the pool
  as it is. \<open>Train_put\<close> appends to the free queue, as lines 220 and 279 of e3b.py do.
\<close>

fun pool_step :: "pool_op \<Rightarrow> pool \<Rightarrow> pool" where
  "pool_step (Train_put v) s = s\<lparr>free_queue := free_queue s @ [v]\<rparr>"
| "pool_step (Acquire_free a) s =
     (if a \<in> set (stopped s) then s
      else case free_queue s of
             [] \<Rightarrow> s
           | None # q \<Rightarrow> s\<lparr>free_queue := q, stopped := a # stopped s\<rparr>
           | Some m # q \<Rightarrow> s\<lparr>free_queue := q, actor_slots := (a, m) # actor_slots s\<rparr>)"
| "pool_step (Publish_full a m) s =
     (if (a, m) \<in> set (actor_slots s)
      then s\<lparr>actor_slots := remove1 (a, m) (actor_slots s), full_queue := full_queue s @ [m]\<rparr>
      else s)"
| "pool_step (Acquire_full l) s =
     (case full_queue s of
        [] \<Rightarrow> s
      | m # q \<Rightarrow> s\<lparr>full_queue := q, learner_slots := (l, m) # learner_slots s\<rparr>)"
| "pool_step (Release l m) s =
     (if (l, m) \<in> set (learner_slots s)
      then s\<lparr>learner_slots := remove1 (l, m) (learner_slots s),
             free_queue := free_queue s @ [Some m]\<rparr>
      else s)"

fun run_pool :: "pool_op list \<Rightarrow> pool \<Rightarrow> pool" where
  "run_pool [] s = s"
| "run_pool (x # ops) s = run_pool ops (pool_step x s)"

text \<open>The slot indices among the entries of the free queue.\<close>

fun slot_indices :: "nat option list \<Rightarrow> nat list" where
  "slot_indices [] = []"
| "slot_indices (None # q) = slot_indices q"
| "slot_indices (Some m # q) = m # slot_indices q"

text \<open>All slot indices in the pool, with multiplicity: queued or owned.\<close>

definition all_slots :: "pool \<Rightarrow> nat multiset" where
  "all_slots s =
     mset (slot_indices (free_queue s)) + mset (full_queue s)
     + mset (map snd (actor_slots s)) + mset (map snd (learner_slots s))"

text \<open>The values \<open>train\<close> puts into the free queue, and those an interleaving puts.\<close>

fun train_puts :: "event list \<Rightarrow> nat option list" where
  "train_puts [] = []"
| "train_puts (Put_free v # es) = v # train_puts es"
| "train_puts (e # es) = train_puts es"

fun op_puts :: "pool_op list \<Rightarrow> nat option list" where
  "op_puts [] = []"
| "op_puts (Train_put v # ops) = v # op_puts ops"
| "op_puts (x # ops) = op_puts ops"

text \<open>The number of sentinels among the entries of a queue.\<close>

definition sentinels :: "nat option list \<Rightarrow> nat" where
  "sentinels q = length (filter (\<lambda>v. v = None) q)"

text \<open>
  An interleaving for four slots and two actors: actor 0 takes slot 0 while \<open>train\<close> is
  still filling the queue, the learner recycles it, and the sentinels arrive while actor 1
  owns slot 1.
\<close>

definition scenario_ops :: "pool_op list" where
  "scenario_ops =
     [Train_put (Some 0), Acquire_free 0, Train_put (Some 1), Train_put (Some 2),
      Train_put (Some 3), Acquire_free 1, Publish_full 0 0, Acquire_full 0, Release 0 0,
      Train_put None, Train_put None]"

section \<open>The lock of the learning step\<close>

text \<open>
  The whole body of \<open>learn\<close> runs under \<^verbatim>\<open>with lock:\<close>. What it does there, in
  program order (e3b.py): the loss is computed (lines 51 to 132), then lines 134 to 146:
  the scheduler steps, the three optimisers are cleared, the loss is back-propagated, the
  three gradients are clipped, the three optimisers step, and the learner's parameters are
  published to the actor model (\<^verbatim>\<open>actor_model.load_state_dict\<close>). The optimisers are
  numbered 0 (learner model), 1 (state embedding) and 2 (inverse dynamics).
\<close>

datatype action =
    Compute_loss
  | Scheduler_step
  | Zero_grad nat
  | Backward
  | Clip_grad_norm nat
  | Optimizer_step nat
  | Load_state_dict

definition learn_body :: "action list" where
  "learn_body =
     [Compute_loss, Scheduler_step, Zero_grad 0, Zero_grad 1, Zero_grad 2, Backward,
      Clip_grad_norm 0, Clip_grad_norm 1, Clip_grad_norm 2,
      Optimizer_step 0, Optimizer_step 1, Optimizer_step 2, Load_state_dict]"

text \<open>
  The parameter \<open>lock\<close> of \<open>learn\<close> has the default \<^verbatim>\<open>threading.Lock()\<close>, created once
  when the function is defined; \<open>batch_and_learn\<close> calls \<open>learn\<close> without that argument,
  so every call of every learner thread uses this one lock. A thread is outside \<open>learn\<close>
  (or waiting for the lock), or holds the lock and is about to perform the \<open>k\<close>-th action
  of the body.
\<close>

datatype lock_pc = Idle | Holding nat

datatype lock_event = Acquire | Act action | Release

record learn_state =
  lock :: "nat option"
  lock_pcs :: "nat \<Rightarrow> lock_pc"
  trace :: "(nat \<times> lock_event) list"

definition initial_learn_state :: learn_state where
  "initial_learn_state = \<lparr>lock = None, lock_pcs = (\<lambda>_. Idle), trace = []\<rparr>"

text \<open>
  One step of thread \<open>i\<close>: entering \<^verbatim>\<open>with lock:\<close> succeeds when the lock is free and
  waits otherwise; inside, the next action of the body; at the end of the body the lock is
  released and \<open>learn\<close> returns.
\<close>

definition learn_step :: "nat \<Rightarrow> learn_state \<Rightarrow> learn_state" where
  "learn_step i s =
     (case lock_pcs s i of
        Idle \<Rightarrow>
          (case lock s of
             None \<Rightarrow> s\<lparr>lock := Some i, lock_pcs := (lock_pcs s)(i := Holding 0),
                        trace := trace s @ [(i, Acquire)]\<rparr>
           | Some j \<Rightarrow> s)
      | Holding k \<Rightarrow>
          if k < length learn_body
          then s\<lparr>lock_pcs := (lock_pcs s)(i := Holding (Suc k)),
                 trace := trace s @ [(i, Act (learn_body ! k))]\<rparr>
          else s\<lparr>lock := None, lock_pcs := (lock_pcs s)(i := Idle),
                 trace := trace s @ [(i, Release)]\<rparr>)"

fun run_learn :: "nat list \<Rightarrow> learn_state \<Rightarrow> learn_state" where
  "run_learn [] s = s"
| "run_learn (i # sched) s = run_learn sched (learn_step i s)"

text \<open>A complete critical section of thread \<open>i\<close>, and the section that is open in a state.\<close>

definition critical_section :: "nat \<Rightarrow> (nat \<times> lock_event) list" where
  "critical_section i = (i, Acquire) # map (\<lambda>a. (i, Act a)) learn_body @ [(i, Release)]"

definition open_section :: "learn_state \<Rightarrow> (nat \<times> lock_event) list" where
  "open_section s =
     (case lock s of
        None \<Rightarrow> []
      | Some i \<Rightarrow>
          (case lock_pcs s i of
             Idle \<Rightarrow> []
           | Holding k \<Rightarrow> (i, Acquire) # map (\<lambda>a. (i, Act a)) (take k learn_body)))"

text \<open>The invariant: only the holder of the lock is inside, and the trace is serial.\<close>

definition holder_inside :: "learn_state \<Rightarrow> bool" where
  "holder_inside s \<longleftrightarrow>
     (\<forall>i. (\<exists>k. lock_pcs s i = Holding k) \<longleftrightarrow> lock s = Some i)"

definition serial :: "learn_state \<Rightarrow> bool" where
  "serial s \<longleftrightarrow> (\<exists>js. trace s = concat (map critical_section js) @ open_section s)"
section \<open>Properties of the learning-rate schedule\<close>

lemma lr_lambda_unfold:
  "lr_lambda flags e =
     1 - min (real_of_int (e * unroll_length flags * batch_size flags))
             (max (real_of_int (total_frames flags)) 100000000)
         / max (real_of_int (total_frames flags)) 100000000"
  by (simp add: lr_lambda_def Let_def)

lemma lr_lambda_nonneg: "0 \<le> lr_lambda flags e"
proof -
  define x where "x = max (real_of_int (total_frames flags)) 100000000"
  have xpos: "0 < x" by (simp add: x_def)
  have "min (real_of_int (e * unroll_length flags * batch_size flags)) x / x \<le> 1"
    using xpos by (simp add: divide_le_eq)
  then show ?thesis by (simp add: lr_lambda_unfold x_def)
qed

lemma lr_lambda_le_one:
  assumes "0 \<le> e" "0 \<le> unroll_length flags * batch_size flags"
  shows "lr_lambda flags e \<le> 1"
proof -
  define x where "x = max (real_of_int (total_frames flags)) 100000000"
  have xpos: "0 < x" by (simp add: x_def)
  have "0 \<le> e * (unroll_length flags * batch_size flags)"
    using assms by (rule mult_nonneg_nonneg)
  then have "0 \<le> real_of_int (e * unroll_length flags * batch_size flags)"
    by (simp only: of_int_0_le_iff mult.assoc)
  then have "0 \<le> min (real_of_int (e * unroll_length flags * batch_size flags)) x / x"
    using xpos by simp
  then show ?thesis by (simp add: lr_lambda_unfold x_def)
qed

lemma lr_lambda_mono:
  assumes "e \<le> e'" "0 \<le> unroll_length flags * batch_size flags"
  shows "lr_lambda flags e' \<le> lr_lambda flags e"
proof -
  define x where "x = max (real_of_int (total_frames flags)) 100000000"
  have xpos: "0 < x" by (simp add: x_def)
  have "e * (unroll_length flags * batch_size flags) \<le> e' * (unroll_length flags * batch_size flags)"
    using assms by (rule mult_right_mono)
  then have "real_of_int (e * unroll_length flags * batch_size flags)
      \<le> real_of_int (e' * unroll_length flags * batch_size flags)"
    by (simp only: of_int_le_iff mult.assoc)
  then have "min (real_of_int (e * unroll_length flags * batch_size flags)) x
      \<le> min (real_of_int (e' * unroll_length flags * batch_size flags)) x"
    by simp
  then have "min (real_of_int (e * unroll_length flags * batch_size flags)) x / x
      \<le> min (real_of_int (e' * unroll_length flags * batch_size flags)) x / x"
    using xpos by (simp add: divide_right_mono)
  then show ?thesis by (simp add: lr_lambda_unfold x_def)
qed

lemma lr_lambda_zero:
  assumes "max (real_of_int (total_frames flags)) 100000000
           \<le> real_of_int (e * unroll_length flags * batch_size flags)"
  shows "lr_lambda flags e = 0"
proof -
  define x where "x = max (real_of_int (total_frames flags)) 100000000"
  have xpos: "0 < x" by (simp add: x_def)
  have "min (real_of_int (e * unroll_length flags * batch_size flags)) x = x"
    using assms by (simp add: x_def)
  then show ?thesis using xpos by (simp add: lr_lambda_unfold x_def)
qed

text \<open>
  Claim C10, as amended. For every epoch \<open>e \<ge> 0\<close> and a product
  \<open>unroll_length * batch_size \<ge> 0\<close>, the multiplier is
  \<open>1 - min (e * unroll_length * batch_size) x / x\<close> with
  \<open>x = max total_frames 1e8\<close>; it lies in [0, 1], does not increase with the epoch, and
  is exactly 0 once \<open>e * unroll_length * batch_size \<ge> x\<close>. (That it is never negative
  needs no hypothesis: \<open>lr_lambda_nonneg\<close>.)
\<close>

theorem lr_lambda_schedule:
  assumes "0 \<le> e" and "0 \<le> unroll_length flags * batch_size flags"
  shows "lr_lambda flags e =
           1 - min (real_of_int (e * unroll_length flags * batch_size flags))
                   (max (real_of_int (total_frames flags)) 100000000)
               / max (real_of_int (total_frames flags)) 100000000
       \<and> 0 \<le> lr_lambda flags e \<and> lr_lambda flags e \<le> 1
       \<and> (\<forall>e'. e \<le> e' \<longrightarrow> lr_lambda flags e' \<le> lr_lambda flags e)
       \<and> (max (real_of_int (total_frames flags)) 100000000
            \<le> real_of_int (e * unroll_length flags * batch_size flags)
          \<longrightarrow> lr_lambda flags e = 0)"
  using assms lr_lambda_unfold [of flags e] lr_lambda_nonneg [of flags e]
    lr_lambda_le_one [of e flags] lr_lambda_mono [of e _ flags] lr_lambda_zero [of flags e]
  by blast

text \<open>
  The schedule at 3200 frames per step: 0.68 after 10000 steps, 0 from step 31250 on.
\<close>

theorem lr_lambda_schedule_witness:
  "(0::int) \<le> 40000 \<and> 0 \<le> unroll_length long_run_flags * batch_size long_run_flags
   \<and> lr_lambda long_run_flags 40000 = 0
   \<and> lr_lambda long_run_flags 50000 \<le> lr_lambda long_run_flags 40000
   \<and> lr_lambda long_run_flags 10000 = 17 / 25"
proof -
  have h1: "(0::int) \<le> 40000" by simp
  have h2: "0 \<le> unroll_length long_run_flags * batch_size long_run_flags"
    by (simp add: long_run_flags_def scenario_flags_def)
  have e: "lr_lambda long_run_flags 10000 = 17 / 25"
    by (simp add: lr_lambda_def long_run_flags_def scenario_flags_def)
  have big: "max (real_of_int (total_frames long_run_flags)) 100000000
            \<le> real_of_int (40000 * unroll_length long_run_flags * batch_size long_run_flags)"
    by (simp add: long_run_flags_def scenario_flags_def)
  have m: "(40000::int) \<le> 50000" by simp
  from lr_lambda_schedule [OF h1 h2] have
    z: "max (real_of_int (total_frames long_run_flags)) 100000000
            \<le> real_of_int (40000 * unroll_length long_run_flags * batch_size long_run_flags)
        \<longrightarrow> lr_lambda long_run_flags 40000 = 0"
    and d: "\<forall>e'. 40000 \<le> e' \<longrightarrow> lr_lambda long_run_flags e' \<le> lr_lambda long_run_flags 40000"
    by blast+
  from z big have "lr_lambda long_run_flags 40000 = 0" by blast
  moreover from d m have "lr_lambda long_run_flags 50000 \<le> lr_lambda long_run_flags 40000" by blast
  ultimately show ?thesis using h1 h2 e by blast
qed

text \<open>
  Claim C10 as stated puts no condition on the sizes. With \<open>unroll_length = -1\<close> and
  \<open>batch_size = 1\<close> the multiplier at epoch 1 is \<open>1 + 1e-8\<close>, above 1, and it grows
  with the epoch.
\<close>

theorem lr_lambda_negative_size_counterexample:
  "\<not> lr_lambda (scenario_flags\<lparr>unroll_length := - 1\<rparr>) 1 \<le> 1
   \<and> \<not> lr_lambda (scenario_flags\<lparr>unroll_length := - 1\<rparr>) 2
        \<le> lr_lambda (scenario_flags\<lparr>unroll_length := - 1\<rparr>) 1"
  by (simp add: lr_lambda_def scenario_flags_def)


section \<open>Properties of the rewards and discounts passed to V-trace\<close>

lemma same_shape_tl: "same_shape xs ys \<Longrightarrow> same_shape (tl xs) (tl ys)"
  by (simp add: same_shape_def map_tl)

lemma same_shape_length: "same_shape xs ys \<Longrightarrow> length xs = length ys"
  unfolding same_shape_def by (metis length_map)

lemma same_shape_row:
  assumes "same_shape xs ys" and "t < length xs"
  shows "length (xs ! t) = length (ys ! t)"
proof -
  have "map length xs ! t = map length ys ! t"
    using assms(1) by (simp add: same_shape_def)
  then show ?thesis
    using assms same_shape_length [OF assms(1)] by simp
qed

lemma tensor_add_nth:
  assumes "same_shape xs ys" and "t < length xs" and "j < length (xs ! t)"
  shows "tensor_add xs ys ! t ! j = xs ! t ! j + ys ! t ! j"
  using assms same_shape_length [OF assms(1)] same_shape_row [OF assms(1,2)]
  by (simp add: tensor_add_def)

lemma tensor_scale_nth:
  "t < length xs \<Longrightarrow> j < length (xs ! t) \<Longrightarrow> tensor_scale xs c ! t ! j = xs ! t ! j * c"
  by (simp add: tensor_scale_def)

lemma torch_clamp_nth:
  "t < length xs \<Longrightarrow> j < length (xs ! t)
   \<Longrightarrow> torch_clamp xs lo hi ! t ! j = min (max (xs ! t ! j) lo) hi"
  by (simp add: torch_clamp_def)

lemma same_shape_scale: "same_shape xs (tensor_scale ys c) = same_shape xs ys"
  by (simp add: same_shape_def tensor_scale_def comp_def)

lemma same_shape_add_left:
  "same_shape xs ys \<Longrightarrow> same_shape (tensor_add xs ys) xs"
  unfolding same_shape_def tensor_add_def
proof (induction xs arbitrary: ys)
  case Nil
  then show ?case by simp
next
  case (Cons x xs)
  then show ?case by (cases ys) auto
qed

text \<open>The three branches of \<open>learn\<close>, as tensors.\<close>

lemma learn_total_rewards:
  "total_rewards (learn flags b) =
     (if no_reward flags then tensor_scale (tl (bonus_reward b)) (intrinsic_reward_coef flags)
      else if intrinsic_reward_coef flags > 0
           then tensor_add (tl (reward b))
                  (tensor_scale (tl (bonus_reward b)) (intrinsic_reward_coef flags))
           else tl (reward b))"
  by (simp add: learn_def Let_def imul_scalar_def)

lemma learn_clipped: 
  "clipped_rewards (learn flags b) = torch_clamp (total_rewards (learn flags b)) (- 1) 1"
  by (simp add: learn_def Let_def)

lemma learn_RNDxE3B_total_rewards:
  "total_rewards (learn_RNDxE3B flags b re pe) = total_rewards (learn flags b)"
  by (simp add: learn_def learn_RNDxE3B_def Let_def imul_scalar_def imul_def)

lemma learn_RNDxE3B_clipped:
  "clipped_rewards (learn_RNDxE3B flags b re pe) = clipped_rewards (learn flags b)"
  by (simp add: learn_def learn_RNDxE3B_def Let_def imul_scalar_def imul_def)

lemma learn_RNDxE3B_discounts:
  "discounts (learn_RNDxE3B flags b re pe) = discounts (learn flags b)"
  by (simp add: learn_def learn_RNDxE3B_def Let_def)

lemma learn_clipped_sum:
  assumes sh: "same_shape (reward b) (bonus_reward b)"
    and t: "t < length (tl (reward b))" and j: "j < length (tl (reward b) ! t)"
    and nr: "\<not> no_reward flags" and c: "0 \<le> intrinsic_reward_coef flags"
  shows "clipped_rewards (learn flags b) ! t ! j =
           min (max (tl (reward b) ! t ! j
                     + tl (bonus_reward b) ! t ! j * intrinsic_reward_coef flags) (- 1)) 1"
proof -
  let ?r = "tl (reward b)" and ?i = "tl (bonus_reward b)" and ?c = "intrinsic_reward_coef flags"
  have sh': "same_shape ?r ?i" using sh by (rule same_shape_tl)
  have ti: "t < length ?i" using t same_shape_length [OF sh'] by simp
  have ji: "j < length (?i ! t)" using j same_shape_row [OF sh' t] by simp
  show ?thesis
  proof (cases "?c > 0")
    case True
    have sh'': "same_shape ?r (tensor_scale ?i ?c)" using sh' by (simp add: same_shape_scale)
    have tot: "total_rewards (learn flags b) = tensor_add ?r (tensor_scale ?i ?c)"
      using nr True by (simp add: learn_total_rewards)
    have l1: "length (tensor_add ?r (tensor_scale ?i ?c)) = length ?r"
      using same_shape_length [OF same_shape_add_left [OF sh'']] .
    have l2: "length (tensor_add ?r (tensor_scale ?i ?c) ! t) = length (?r ! t)"
      using same_shape_row [OF same_shape_add_left [OF sh''], of t] t l1 by simp
    have "clipped_rewards (learn flags b) ! t ! j
          = min (max (tensor_add ?r (tensor_scale ?i ?c) ! t ! j) (- 1)) 1"
      using t j l1 l2 by (simp add: learn_clipped tot torch_clamp_nth)
    also have "tensor_add ?r (tensor_scale ?i ?c) ! t ! j = ?r ! t ! j + tensor_scale ?i ?c ! t ! j"
      using sh'' t j by (rule tensor_add_nth)
    also have "tensor_scale ?i ?c ! t ! j = ?i ! t ! j * ?c"
      using ti ji by (rule tensor_scale_nth)
    finally show ?thesis .
  next
    case False
    then have z: "?c = 0" using c by simp
    have tot: "total_rewards (learn flags b) = ?r"
      using nr z by (simp add: learn_total_rewards)
    show ?thesis using t j z by (simp add: learn_clipped tot torch_clamp_nth)
  qed
qed

lemma learn_clipped_no_reward:
  assumes t: "t < length (tl (bonus_reward b))" and j: "j < length (tl (bonus_reward b) ! t)"
    and nr: "no_reward flags"
  shows "clipped_rewards (learn flags b) ! t ! j =
           min (max (tl (bonus_reward b) ! t ! j * intrinsic_reward_coef flags) (- 1)) 1"
proof -
  have tot: "total_rewards (learn flags b)
             = tensor_scale (tl (bonus_reward b)) (intrinsic_reward_coef flags)"
    using nr by (simp add: learn_total_rewards)
  have "clipped_rewards (learn flags b) ! t ! j
        = min (max (tensor_scale (tl (bonus_reward b)) (intrinsic_reward_coef flags) ! t ! j) (- 1)) 1"
    using t j by (simp add: learn_clipped tot torch_clamp_nth tensor_scale_def)
  then show ?thesis using t j by (simp add: tensor_scale_nth)
qed

lemma learn_clipped_negative_coef:
  assumes t: "t < length (tl (reward b))" and j: "j < length (tl (reward b) ! t)"
    and nr: "\<not> no_reward flags" and c: "intrinsic_reward_coef flags < 0"
  shows "clipped_rewards (learn flags b) ! t ! j = min (max (tl (reward b) ! t ! j) (- 1)) 1"
proof -
  have tot: "total_rewards (learn flags b) = tl (reward b)"
    using nr c by (simp add: learn_total_rewards)
  show ?thesis using t j by (simp add: learn_clipped tot torch_clamp_nth)
qed

lemma scenario_total:
  "total_rewards (learn scenario_flags scenario_batch) = [[1 / 10], [3 / 20], [21 / 20]]"
  by (simp add: learn_total_rewards scenario_flags_def scenario_batch_def
      tensor_add_def tensor_scale_def)

lemma scenario_clipped:
  "clipped_rewards (learn scenario_flags scenario_batch) = [[1 / 10], [3 / 20], [1]]"
  by (simp add: learn_clipped scenario_total torch_clamp_def)

text \<open>
  Claim C1, as amended. The \<open>rewards\<close> argument of the V-trace call is the total reward
  clamped to [-1, 1], entry by entry, and the total depends on two options. With
  \<open>no_reward\<close> unset and a coefficient \<open>\<ge> 0\<close> it is the extrinsic reward plus the bonus
  times the coefficient; with \<open>no_reward\<close> set it is the scaled bonus alone; with
  \<open>no_reward\<close> unset and a negative coefficient it is the extrinsic reward alone. RNDxE3B
  feeds the same rewards. In the scenario (extrinsic [0, 0, 1], bonus [0.2, 0.3, 0.1],
  coefficient 0.5, \<open>no_reward\<close> unset) the totals are [0.1, 0.15, 1.05] and the clamped
  rewards [0.1, 0.15, 1.0].
\<close>

theorem learn_clipped_rewards:
  assumes "same_shape (reward b) (bonus_reward b)"
    and "t < length (tl (reward b))" and "j < length (tl (reward b) ! t)"
  shows "(\<not> no_reward flags \<and> 0 \<le> intrinsic_reward_coef flags \<longrightarrow>
            clipped_rewards (learn flags b) ! t ! j =
              min (max (tl (reward b) ! t ! j
                        + tl (bonus_reward b) ! t ! j * intrinsic_reward_coef flags) (- 1)) 1)
       \<and> (no_reward flags \<longrightarrow>
            clipped_rewards (learn flags b) ! t ! j =
              min (max (tl (bonus_reward b) ! t ! j * intrinsic_reward_coef flags) (- 1)) 1)
       \<and> (\<not> no_reward flags \<and> intrinsic_reward_coef flags < 0 \<longrightarrow>
            clipped_rewards (learn flags b) ! t ! j = min (max (tl (reward b) ! t ! j) (- 1)) 1)
       \<and> clipped_rewards (learn_RNDxE3B flags b re pe) = clipped_rewards (learn flags b)
       \<and> total_rewards (learn scenario_flags scenario_batch) = [[1 / 10], [3 / 20], [21 / 20]]
       \<and> clipped_rewards (learn scenario_flags scenario_batch) = [[1 / 10], [3 / 20], [1]]"
proof -
  have sh': "same_shape (tl (reward b)) (tl (bonus_reward b))"
    using assms(1) by (rule same_shape_tl)
  have ti: "t < length (tl (bonus_reward b))"
    using assms(2) same_shape_length [OF sh'] by simp
  have ji: "j < length (tl (bonus_reward b) ! t)"
    using assms(3) same_shape_row [OF sh' assms(2)] by simp
  show ?thesis
    using learn_clipped_sum [OF assms, of flags] learn_clipped_no_reward [OF ti ji, of flags]
      learn_clipped_negative_coef [OF assms(2,3), of flags]
      learn_RNDxE3B_clipped [of flags b re pe] scenario_total scenario_clipped
    by blast
qed

text \<open>
  The three branches at the last step of the scenario: 1 + 0.05 clamped to 1; the bonus
  alone, 0.05; the extrinsic reward alone, 1.
\<close>

theorem learn_clipped_rewards_witness:
  "same_shape (reward scenario_batch) (bonus_reward scenario_batch)
   \<and> 2 < length (tl (reward scenario_batch)) \<and> 0 < length (tl (reward scenario_batch) ! 2)
   \<and> \<not> no_reward scenario_flags \<and> 0 \<le> intrinsic_reward_coef scenario_flags
   \<and> clipped_rewards (learn scenario_flags scenario_batch) ! 2 ! 0 = 1
   \<and> no_reward (scenario_flags\<lparr>no_reward := True\<rparr>)
   \<and> clipped_rewards (learn (scenario_flags\<lparr>no_reward := True\<rparr>) scenario_batch) ! 2 ! 0 = 1 / 20
   \<and> \<not> no_reward (scenario_flags\<lparr>intrinsic_reward_coef := - 1\<rparr>)
   \<and> intrinsic_reward_coef (scenario_flags\<lparr>intrinsic_reward_coef := - 1\<rparr>) < 0
   \<and> clipped_rewards (learn (scenario_flags\<lparr>intrinsic_reward_coef := - 1\<rparr>) scenario_batch) ! 2 ! 0 = 1"
proof -
  have h1: "same_shape (reward scenario_batch) (bonus_reward scenario_batch)"
    by (simp add: same_shape_def scenario_batch_def)
  have h2: "2 < length (tl (reward scenario_batch))" by (simp add: scenario_batch_def)
  have h3: "0 < length (tl (reward scenario_batch) ! 2)" by (simp add: scenario_batch_def)
  have f1: "\<not> no_reward scenario_flags \<and> 0 \<le> intrinsic_reward_coef scenario_flags"
    by (simp add: scenario_flags_def)
  have f2: "no_reward (scenario_flags\<lparr>no_reward := True\<rparr>)" by simp
  have f3: "\<not> no_reward (scenario_flags\<lparr>intrinsic_reward_coef := - 1\<rparr>)
            \<and> intrinsic_reward_coef (scenario_flags\<lparr>intrinsic_reward_coef := - 1\<rparr>) < 0"
    by (simp add: scenario_flags_def)
  have v: "tl (reward scenario_batch) ! 2 ! 0 = 1" "tl (bonus_reward scenario_batch) ! 2 ! 0 = 1 / 10"
    by (simp_all add: scenario_batch_def)
  have c: "intrinsic_reward_coef scenario_flags = 1 / 2" by (simp add: scenario_flags_def)
  from learn_clipped_rewards [OF h1 h2 h3, of scenario_flags] f1
  have a: "clipped_rewards (learn scenario_flags scenario_batch) ! 2 ! 0 = 1"
    by (simp add: v c)
  from learn_clipped_rewards [OF h1 h2 h3, of "scenario_flags\<lparr>no_reward := True\<rparr>"] f2
  have b: "clipped_rewards (learn (scenario_flags\<lparr>no_reward := True\<rparr>) scenario_batch) ! 2 ! 0 = 1 / 20"
    by (simp add: v c)
  from learn_clipped_rewards [OF h1 h2 h3, of "scenario_flags\<lparr>intrinsic_reward_coef := - 1\<rparr>"] f3
  have d: "clipped_rewards (learn (scenario_flags\<lparr>intrinsic_reward_coef := - 1\<rparr>) scenario_batch) ! 2 ! 0 = 1"
    by (simp add: v)
  show ?thesis using h1 h2 h3 f1 f2 f3 a b d by blast
qed

text \<open>
  Claim C1 as stated speaks of every learning step. With \<open>no_reward\<close> set, the scenario
  feeds [0.1, 0.15, 0.05] to V-trace, not the clamped sum [0.1, 0.15, 1.0].
\<close>

theorem learn_no_reward_counterexample:
  "clipped_rewards (learn (scenario_flags\<lparr>no_reward := True\<rparr>) scenario_batch)
     = [[1 / 10], [3 / 20], [1 / 20]]
   \<and> torch_clamp (tensor_add (tl (reward scenario_batch))
        (tensor_scale (tl (bonus_reward scenario_batch))
           (intrinsic_reward_coef (scenario_flags\<lparr>no_reward := True\<rparr>)))) (- 1) 1
     = [[1 / 10], [3 / 20], [1]]
   \<and> clipped_rewards (learn (scenario_flags\<lparr>no_reward := True\<rparr>) scenario_batch)
     \<noteq> torch_clamp (tensor_add (tl (reward scenario_batch))
        (tensor_scale (tl (bonus_reward scenario_batch))
           (intrinsic_reward_coef (scenario_flags\<lparr>no_reward := True\<rparr>)))) (- 1) 1"
  by (simp add: learn_clipped learn_total_rewards scenario_flags_def scenario_batch_def
      tensor_add_def tensor_scale_def torch_clamp_def)


lemma learn_discounts_nth:
  assumes "t < length (tl (real_done b))" and "j < length (tl (real_done b) ! t)"
  shows "discounts (learn flags b) ! t ! j
         = discounting flags * (1 - of_bool (tl (real_done b) ! t ! j))"
  using assms by (simp add: learn_def Let_def)

text \<open>
  Claim C3, as amended. The discount at step \<open>t\<close> is the discount factor times
  \<open>1 - real_done\<close>: it is 0 where the episode truly terminated, a step with \<open>done\<close> set
  and \<open>real_done\<close> unset keeps the full factor, and for a non-zero factor the discount is
  0 only where the episode truly terminated. Both \<open>learn\<close> functions agree.
\<close>

theorem learn_discounts:
  assumes "t < length (tl (real_done b))" and "j < length (tl (real_done b) ! t)"
  shows "discounts (learn flags b) ! t ! j
           = discounting flags * (1 - of_bool (tl (real_done b) ! t ! j))
       \<and> discounts (learn_RNDxE3B flags b re pe) ! t ! j
           = discounting flags * (1 - of_bool (tl (real_done b) ! t ! j))
       \<and> (tl (real_done b) ! t ! j \<longrightarrow> discounts (learn flags b) ! t ! j = 0)
       \<and> (tl (done_flag b) ! t ! j \<and> \<not> tl (real_done b) ! t ! j
            \<longrightarrow> discounts (learn flags b) ! t ! j = discounting flags)
       \<and> (discounting flags \<noteq> 0
            \<longrightarrow> (discounts (learn flags b) ! t ! j = 0 \<longleftrightarrow> tl (real_done b) ! t ! j))"
proof -
  have d: "discounts (learn flags b) ! t ! j
           = discounting flags * (1 - of_bool (tl (real_done b) ! t ! j))"
    using assms by (rule learn_discounts_nth)
  show ?thesis
    unfolding learn_RNDxE3B_discounts d by simp
qed

text \<open>
  In the scenario the second step is truncated (\<open>done\<close> only) and keeps 0.99; the third
  truly terminates and gets 0.
\<close>

theorem learn_discounts_witness:
  "1 < length (tl (real_done scenario_batch)) \<and> 0 < length (tl (real_done scenario_batch) ! 1)
   \<and> tl (done_flag scenario_batch) ! 1 ! 0 \<and> \<not> tl (real_done scenario_batch) ! 1 ! 0
   \<and> discounting scenario_flags \<noteq> 0
   \<and> discounts (learn scenario_flags scenario_batch) ! 1 ! 0 = 99 / 100
   \<and> 2 < length (tl (real_done scenario_batch)) \<and> 0 < length (tl (real_done scenario_batch) ! 2)
   \<and> tl (real_done scenario_batch) ! 2 ! 0
   \<and> discounts (learn scenario_flags scenario_batch) ! 2 ! 0 = 0"
proof -
  have h1: "1 < length (tl (real_done scenario_batch))"
    and h2: "0 < length (tl (real_done scenario_batch) ! 1)"
    and h3: "2 < length (tl (real_done scenario_batch))"
    and h4: "0 < length (tl (real_done scenario_batch) ! 2)"
    by (simp_all add: scenario_batch_def)
  have trunc: "tl (done_flag scenario_batch) ! 1 ! 0 \<and> \<not> tl (real_done scenario_batch) ! 1 ! 0"
    by (simp add: scenario_batch_def)
  have tm: "tl (real_done scenario_batch) ! 2 ! 0" by (simp add: scenario_batch_def)
  have g: "discounting scenario_flags = 99 / 100" by (simp add: scenario_flags_def)
  from learn_discounts [OF h1 h2, of scenario_flags] trunc
  have a: "discounts (learn scenario_flags scenario_batch) ! 1 ! 0 = 99 / 100"
    by (simp add: g)
  from learn_discounts [OF h3 h4, of scenario_flags] tm
  have b: "discounts (learn scenario_flags scenario_batch) ! 2 ! 0 = 0"
    by blast
  show ?thesis using h1 h2 h3 h4 trunc tm a b by (simp add: g)
qed

text \<open>
  Claim C3 as stated: zero exactly when the episode truly terminated. With a discount
  factor of 0 the discount is 0 at a step that did not terminate.
\<close>

theorem learn_zero_discounting_counterexample:
  "\<not> tl (real_done scenario_batch) ! 0 ! 0
   \<and> discounts (learn (scenario_flags\<lparr>discounting := 0\<rparr>) scenario_batch) ! 0 ! 0 = 0"
  by (simp add: learn_def Let_def scenario_batch_def)

lemma scenario_rnd_error:
  "torch_norm_diff scenario_predicted_embedding scenario_random_embedding = [[2], [2], [2]]"
  by (simp add: torch_norm_diff_def scenario_predicted_embedding_def scenario_random_embedding_def)

text \<open>
  Claim C2 on the code. In the scenario the RND error is 2 and the episodic bonus
  [0.2, 0.3, 0.1]. \<open>learn\<close> of RNDxE3B computes the product [0.4, 0.6, 0.2] into the RND
  tensor, but the total reward it builds is [0.1, 0.15, 1.05], the extrinsic reward plus the
  scaled episodic bonus alone; with the product as intrinsic reward the total would be
  [0.2, 0.3, 1.1].
\<close>

theorem learn_RNDxE3B_product_unused:
  "torch_norm_diff scenario_predicted_embedding scenario_random_embedding = [[2], [2], [2]]
   \<and> tl (bonus_reward scenario_batch) = [[2 / 10], [3 / 10], [1 / 10]]
   \<and> final_store (learn_RNDxE3B scenario_flags scenario_batch
        scenario_random_embedding scenario_predicted_embedding) Rnd_error
      = [[4 / 10], [6 / 10], [2 / 10]]
   \<and> total_rewards (learn_RNDxE3B scenario_flags scenario_batch
        scenario_random_embedding scenario_predicted_embedding)
      = [[1 / 10], [3 / 20], [21 / 20]]
   \<and> tensor_add (tl (reward scenario_batch))
        (tensor_scale (tensor_mul
            (torch_norm_diff scenario_predicted_embedding scenario_random_embedding)
            (tl (bonus_reward scenario_batch)))
          (intrinsic_reward_coef scenario_flags))
      = [[2 / 10], [3 / 10], [11 / 10]]"
proof -
  have s: "final_store (learn_RNDxE3B scenario_flags scenario_batch
        scenario_random_embedding scenario_predicted_embedding) Rnd_error
      = tensor_mul (torch_norm_diff scenario_predicted_embedding scenario_random_embedding)
          (tl (bonus_reward scenario_batch))"
    by (simp add: learn_RNDxE3B_def Let_def imul_def imul_scalar_def)
  have b: "tl (bonus_reward scenario_batch) = [[2 / 10], [3 / 10], [1 / 10]]"
    by (simp add: scenario_batch_def)
  have r: "tl (reward scenario_batch) = [[0], [0], [1]]"
    by (simp add: scenario_batch_def)
  have c: "intrinsic_reward_coef scenario_flags = 1 / 2" by (simp add: scenario_flags_def)
  show ?thesis
    unfolding s learn_RNDxE3B_total_rewards scenario_total scenario_rnd_error b r c
    by (simp add: tensor_mul_def tensor_scale_def tensor_add_def)
qed


section \<open>Properties of initialisation and of the training driver\<close>

lemma init_vanilla_checkpoint:
  assumes "checkpoint flags = Some path" and "path \<noteq> []" and "model flags = ''vanilla''"
  shows "init_models_and_states flags fs fresh = Inl NotImplementedError"
  using assms by (simp add: init_models_and_states_def)

lemma init_no_checkpoint:
  assumes "checkpoint flags = None"
  shows "init_models_and_states flags fs fresh
         = Inr (fresh\<lparr>actor_exploration_model := None, learner_exploration_model := None\<rparr>)"
  using assms by (simp add: init_models_and_states_def)

lemma start_actor_startup:
  "Start_actor i \<in> set (startup_events flags) \<longleftrightarrow> i < nat (num_actors flags)"
  by (auto simp: startup_events_def py_range_def)

text \<open>
  Claim C6. With a non-empty exploration checkpoint and the model variant
  \<open>vanilla\<close>, \<open>init_models_and_states\<close> raises \<open>NotImplementedError\<close>; \<open>train\<close> calls
  it first, so \<open>train\<close> ends with that error and no actor process has been started.
\<close>

theorem train_rejects_vanilla_checkpoint:
  assumes "checkpoint flags = Some path" and "path \<noteq> []" and "model flags = ''vanilla''"
  shows "init_models_and_states flags fs fresh = Inl NotImplementedError
       \<and> snd (train flags fs fresh w) = Inl NotImplementedError
       \<and> (\<forall>i. Start_actor i \<notin> set (fst (train flags fs fresh w)))"
  using init_vanilla_checkpoint [OF assms, of fs fresh] by (simp add: train_def)

text \<open>
  The scenario with a checkpoint and \<open>vanilla\<close>: no actor is started; without the
  checkpoint, actor 0 is.
\<close>

theorem train_rejects_vanilla_checkpoint_witness:
  "checkpoint (scenario_flags\<lparr>checkpoint := Some ''model.tar'', model := ''vanilla''\<rparr>)
     = Some ''model.tar''
   \<and> ''model.tar'' \<noteq> []
   \<and> model (scenario_flags\<lparr>checkpoint := Some ''model.tar'', model := ''vanilla''\<rparr>) = ''vanilla''
   \<and> snd (train (scenario_flags\<lparr>checkpoint := Some ''model.tar'', model := ''vanilla''\<rparr>)
          scenario_fs scenario_fresh (Completed 0)) = Inl NotImplementedError
   \<and> Start_actor 0 \<notin> set (fst (train
          (scenario_flags\<lparr>checkpoint := Some ''model.tar'', model := ''vanilla''\<rparr>)
          scenario_fs scenario_fresh (Completed 0)))
   \<and> Start_actor 0 \<in> set (fst (train scenario_flags scenario_fs scenario_fresh (Completed 0)))"
proof -
  let ?f = "scenario_flags\<lparr>checkpoint := Some ''model.tar'', model := ''vanilla''\<rparr>"
  have h1: "checkpoint ?f = Some ''model.tar''" by simp
  have h2: "''model.tar'' \<noteq> []" by simp
  have h3: "model ?f = ''vanilla''" by simp
  have ok: "init_models_and_states scenario_flags scenario_fs scenario_fresh
            = Inr (scenario_fresh\<lparr>actor_exploration_model := None,
                                   learner_exploration_model := None\<rparr>)"
    by (rule init_no_checkpoint) (simp add: scenario_flags_def)
  have s: "Start_actor 0 \<in> set (fst (train scenario_flags scenario_fs scenario_fresh (Completed 0)))"
    by (simp add: train_def ok start_actor_startup) (simp add: scenario_flags_def)
  from train_rejects_vanilla_checkpoint [OF h1 h2 h3, of scenario_fs scenario_fresh "Completed 0"]
  show ?thesis using h1 h2 h3 s by blast
qed

lemma save_not_in_startup: "Save_checkpoint \<notin> set (startup_events flags)"
  by (auto simp: startup_events_def)

lemma save_not_in_finally: "Save_checkpoint \<notin> set (finally_events flags)"
  by (auto simp: finally_events_def)

lemma close_not_in_startup: "Close_logger \<notin> set (startup_events flags)"
  by (auto simp: startup_events_def)

lemma close_not_in_finally: "Close_logger \<notin> set (finally_events flags)"
  by (auto simp: finally_events_def)

lemma close_not_in_checkpoint: "Close_logger \<notin> set (checkpoint_events flags)"
  by (simp add: checkpoint_events_def)

lemma set_concat_replicate_subset: "set (concat (replicate k xs)) \<subseteq> set xs"
  by (induction k) auto

lemma count_startup: "count_list (startup_events flags) Save_checkpoint = 0"
  using save_not_in_startup by (simp add: count_list_0_iff)

lemma count_finally: "count_list (finally_events flags) Save_checkpoint = 0"
  using save_not_in_finally by (simp add: count_list_0_iff)

lemma count_join_thread: "count_list (map Join_thread ns) Save_checkpoint = 0"
  by (auto simp: count_list_0_iff)

lemma count_periodic:
  "count_list (concat (replicate k (checkpoint_events flags))) Save_checkpoint
   = (if disable_checkpoint flags then 0 else k)"
  by (induction k) (simp_all add: checkpoint_events_def)

lemma finally_events_eq:
  "finally_events flags =
     replicate (nat (num_actors flags)) (Put_free None)
     @ map Join_actor [0..<nat (num_actors flags)]"
  by (simp add: finally_events_def py_range_def map_replicate_const)

text \<open>
  Claim C4, as amended. When \<open>KeyboardInterrupt\<close> arrives in the wait loop, \<open>train\<close>
  pushes one sentinel per actor, joins every actor and returns: no final checkpoint is
  written (the trace holds only the \<open>k\<close> periodic ones) and the logger is not closed. When
  the wait loop ends normally, \<open>train\<close> joins the learner threads, pushes the sentinels,
  joins the actors, and then writes the final checkpoint (unless checkpoints are disabled)
  and closes the logger.
\<close>

theorem train_interrupt_shutdown:
  assumes "init_models_and_states flags fs fresh = Inr ms"
  shows "fst (train flags fs fresh (Interrupted k))
           = Open_logger # startup_events flags
             @ concat (replicate k (checkpoint_events flags))
             @ replicate (nat (num_actors flags)) (Put_free None)
             @ map Join_actor [0..<nat (num_actors flags)]
       \<and> snd (train flags fs fresh (Interrupted k)) = Inr ()
       \<and> Close_logger \<notin> set (fst (train flags fs fresh (Interrupted k)))
       \<and> count_list (fst (train flags fs fresh (Interrupted k))) Save_checkpoint
           = (if disable_checkpoint flags then 0 else k)
       \<and> count_list (fst (train flags fs fresh (Completed k))) Save_checkpoint
           = (if disable_checkpoint flags then 0 else k + 1)
       \<and> fst (train flags fs fresh (Completed k))
           = Open_logger # startup_events flags
             @ concat (replicate k (checkpoint_events flags))
             @ map Join_thread [0..<nat (num_threads flags)]
             @ replicate (nat (num_actors flags)) (Put_free None)
             @ map Join_actor [0..<nat (num_actors flags)]
             @ (if disable_checkpoint flags then [] else [Save_checkpoint])
             @ [Close_logger]"
proof -
  have i: "fst (train flags fs fresh (Interrupted k))
           = Open_logger # startup_events flags
             @ concat (replicate k (checkpoint_events flags)) @ finally_events flags"
    using assms by (simp add: train_def)
  have c: "fst (train flags fs fresh (Completed k))
           = Open_logger # startup_events flags
             @ concat (replicate k (checkpoint_events flags))
             @ map Join_thread (py_range (num_threads flags))
             @ finally_events flags @ checkpoint_events flags @ [Close_logger]"
    using assms by (simp add: train_def)
  have r: "snd (train flags fs fresh (Interrupted k)) = Inr ()"
    using assms by (simp add: train_def)
  have cl: "Close_logger \<notin> set (fst (train flags fs fresh (Interrupted k)))"
    using set_concat_replicate_subset [of k "checkpoint_events flags"]
      close_not_in_checkpoint [of flags]
    by (auto simp: i close_not_in_startup close_not_in_finally)
  have svi: "count_list (fst (train flags fs fresh (Interrupted k))) Save_checkpoint
             = (if disable_checkpoint flags then 0 else k)"
    by (simp add: i count_startup count_finally count_periodic)
  have svc: "count_list (fst (train flags fs fresh (Completed k))) Save_checkpoint
             = (if disable_checkpoint flags then 0 else k + 1)"
    by (simp add: c count_startup count_finally count_periodic count_join_thread)
       (simp add: checkpoint_events_def)
  have i': "fst (train flags fs fresh (Interrupted k))
           = Open_logger # startup_events flags
             @ concat (replicate k (checkpoint_events flags))
             @ replicate (nat (num_actors flags)) (Put_free None)
             @ map Join_actor [0..<nat (num_actors flags)]"
    by (simp add: i finally_events_eq)
  have c': "fst (train flags fs fresh (Completed k))
           = Open_logger # startup_events flags
             @ concat (replicate k (checkpoint_events flags))
             @ map Join_thread [0..<nat (num_threads flags)]
             @ replicate (nat (num_actors flags)) (Put_free None)
             @ map Join_actor [0..<nat (num_actors flags)]
             @ (if disable_checkpoint flags then [] else [Save_checkpoint])
             @ [Close_logger]"
    by (simp add: c finally_events_eq py_range_def checkpoint_events_def)
  show ?thesis
    using r cl svi svc i' c' by blast
qed

text \<open>
  The scenario (two actors, four buffers, one learner thread), interrupted and completed.
\<close>

theorem train_interrupt_shutdown_witness:
  "init_models_and_states scenario_flags scenario_fs scenario_fresh
     = Inr (scenario_fresh\<lparr>actor_exploration_model := None, learner_exploration_model := None\<rparr>)
   \<and> fst (train scenario_flags scenario_fs scenario_fresh (Interrupted 0))
     = [Open_logger, Start_actor 0, Start_actor 1,
        Put_free (Some 0), Put_free (Some 1), Put_free (Some 2), Put_free (Some 3),
        Start_thread 0,
        Put_free None, Put_free None, Join_actor 0, Join_actor 1]
   \<and> fst (train scenario_flags scenario_fs scenario_fresh (Completed 0))
     = [Open_logger, Start_actor 0, Start_actor 1,
        Put_free (Some 0), Put_free (Some 1), Put_free (Some 2), Put_free (Some 3),
        Start_thread 0, Join_thread 0,
        Put_free None, Put_free None, Join_actor 0, Join_actor 1,
        Save_checkpoint, Close_logger]"
proof -
  have ok: "init_models_and_states scenario_flags scenario_fs scenario_fresh
            = Inr (scenario_fresh\<lparr>actor_exploration_model := None,
                                   learner_exploration_model := None\<rparr>)"
    by (rule init_no_checkpoint) (simp add: scenario_flags_def)
  have n: "nat (num_actors scenario_flags) = 2" "nat (num_threads scenario_flags) = 1"
    "\<not> disable_checkpoint scenario_flags"
    by (simp_all add: scenario_flags_def)
  have u2: "[0..<2] = [0, Suc 0]" by (simp add: upt_rec)
  have u4: "[0..<4] = [0, 1, 2, 3]" by (simp add: upt_rec)
  have st: "startup_events scenario_flags
            = [Start_actor 0, Start_actor 1,
               Put_free (Some 0), Put_free (Some 1), Put_free (Some 2), Put_free (Some 3),
               Start_thread 0]"
    by (simp add: startup_events_def py_range_def scenario_flags_def u2 u4)
  have r2: "replicate 2 (Put_free None) = [Put_free None, Put_free None]"
    by (simp add: numeral_2_eq_2)
  from train_interrupt_shutdown [OF ok, of 0] show ?thesis
    using ok by (simp add: n st u2 r2)
qed

text \<open>
  Claim C4 as stated: the shutdown after an interrupt includes a final checkpoint. In the
  scenario, with checkpoints enabled, the interrupted run returns normally and has written
  no checkpoint; the completed run has.
\<close>

theorem train_interrupt_no_checkpoint_counterexample:
  "\<not> disable_checkpoint scenario_flags
   \<and> snd (train scenario_flags scenario_fs scenario_fresh (Interrupted 0)) = Inr ()
   \<and> Save_checkpoint \<notin> set (fst (train scenario_flags scenario_fs scenario_fresh (Interrupted 0)))
   \<and> Save_checkpoint \<in> set (fst (train scenario_flags scenario_fs scenario_fresh (Completed 0)))"
proof -
  have ok: "init_models_and_states scenario_flags scenario_fs scenario_fresh
            = Inr (scenario_fresh\<lparr>actor_exploration_model := None,
                                   learner_exploration_model := None\<rparr>)"
    by (rule init_no_checkpoint) (simp add: scenario_flags_def)
  have d: "\<not> disable_checkpoint scenario_flags" by (simp add: scenario_flags_def)
  show ?thesis
    using d by (simp add: train_def ok save_not_in_startup save_not_in_finally checkpoint_events_def)
qed


lemma e3b_checkpoint_keys:
  "e3b_checkpoint ms ''actor_exploration_model_state_dict'' = None"
  "e3b_checkpoint ms ''actor_model_state_dict'' = Some (actor_model ms)"
  "e3b_checkpoint ms ''state_embedding_model_state_dict'' = Some (state_embedding_model ms)"
  "e3b_checkpoint ms ''inverse_dynamics_model_state_dict'' = Some (inverse_dynamics_model ms)"
  "e3b_checkpoint ms ''forward_dynamics_model_state_dict'' = None"
  "e3b_checkpoint ms ''random_target_network_state_dict'' = None"
  "e3b_checkpoint ms ''predictor_network_state_dict'' = None"
  "e3b_checkpoint ms ''learner_model_optimizer_state_dict'' = Some (learner_model_optimizer ms)"
  "e3b_checkpoint ms ''state_embedding_optimizer_state_dict'' = Some (state_embedding_optimizer ms)"
  "e3b_checkpoint ms ''predictor_optimizer_state_dict'' = None"
  "e3b_checkpoint ms ''inverse_dynamics_optimizer_state_dict'' = Some (inverse_dynamics_optimizer ms)"
  "e3b_checkpoint ms ''forward_dynamics_optimizer_state_dict'' = None"
  "e3b_checkpoint ms ''scheduler_state_dict'' = Some (scheduler ms)"
  by (simp_all add: e3b_checkpoint_def)

text \<open>
  Claim C7 on the code. Continuing from a checkpoint written by \<open>train\<close> of e3b.py, which
  has no \<^verbatim>\<open>'actor_exploration_model_state_dict'\<close>, raises \<open>KeyError\<close> on the
  exploration-model load path: the absent field is not skipped. With that one field added,
  the same file loads, and the guarded block keeps the fresh state for each field the file
  lacks.
\<close>

theorem init_continue_from_e3b_checkpoint_key_error:
  "init_models_and_states
     (scenario_flags\<lparr>checkpoint := Some ''model.tar'', continue_learning := True\<rparr>)
     scenario_fs scenario_fresh
   = Inl (KeyError ''actor_exploration_model_state_dict'')
   \<and> init_models_and_states
     (scenario_flags\<lparr>checkpoint := Some ''model.tar'', continue_learning := True\<rparr>)
     [''model.tar'' \<mapsto> (e3b_checkpoint scenario_trained)
        (''actor_exploration_model_state_dict'' \<mapsto> 120)]
     scenario_fresh
   = Inr (scenario_fresh
       \<lparr>actor_model := 101, learner_model := 101,
        actor_exploration_model := Some 120, learner_exploration_model := Some 120,
        state_embedding_model := 103, inverse_dynamics_model := 105,
        learner_model_optimizer := 108, state_embedding_optimizer := 109,
        inverse_dynamics_optimizer := 110, scheduler := 113\<rparr>)"
proof -
  have f: "checkpoint (scenario_flags\<lparr>checkpoint := Some ''model.tar'', continue_learning := True\<rparr>)
             = Some ''model.tar''"
    "continue_learning (scenario_flags\<lparr>checkpoint := Some ''model.tar'', continue_learning := True\<rparr>)"
    "model (scenario_flags\<lparr>checkpoint := Some ''model.tar'', continue_learning := True\<rparr>) = ''e3b''"
    by (simp_all add: scenario_flags_def)
  have a: "init_models_and_states
     (scenario_flags\<lparr>checkpoint := Some ''model.tar'', continue_learning := True\<rparr>)
     scenario_fs scenario_fresh
   = Inl (KeyError ''actor_exploration_model_state_dict'')"
    by (simp add: init_models_and_states_def f torch_load_def scenario_fs_def e3b_checkpoint_keys)
  have t: "actor_model scenario_trained = 101" "state_embedding_model scenario_trained = 103"
    "inverse_dynamics_model scenario_trained = 105" "learner_model_optimizer scenario_trained = 108"
    "state_embedding_optimizer scenario_trained = 109"
    "inverse_dynamics_optimizer scenario_trained = 110" "scheduler scenario_trained = 113"
    by (simp_all add: scenario_trained_def)
  have b: "init_models_and_states
     (scenario_flags\<lparr>checkpoint := Some ''model.tar'', continue_learning := True\<rparr>)
     [''model.tar'' \<mapsto> (e3b_checkpoint scenario_trained)
        (''actor_exploration_model_state_dict'' \<mapsto> 120)]
     scenario_fresh
   = Inr (scenario_fresh
       \<lparr>actor_model := 101, learner_model := 101,
        actor_exploration_model := Some 120, learner_exploration_model := Some 120,
        state_embedding_model := 103, inverse_dynamics_model := 105,
        learner_model_optimizer := 108, state_embedding_optimizer := 109,
        inverse_dynamics_optimizer := 110, scheduler := 113\<rparr>)"
    by (simp add: init_models_and_states_def f torch_load_def load_if_present_def
        e3b_checkpoint_keys t scenario_fresh_def)
  from a b show ?thesis by (rule conjI)
qed

section \<open>Properties of the learner threads\<close>


lemma length_pcs_step [simp]: "length (pcs (thread_step flags i s)) = length (pcs s)"
  by (simp add: thread_step_def split: pc.splits)

lemma length_pcs_run [simp]: "length (pcs (run_threads flags sched s)) = length (pcs s)"
  by (induction sched arbitrary: s) simp_all

lemma run_threads_append:
  "run_threads flags (xs @ ys) s = run_threads flags ys (run_threads flags xs s)"
  by (induction xs arbitrary: s) simp_all

text \<open>Every completed learning step adds exactly one batch of frames.\<close>

lemma thread_step_frames:
  "frames (thread_step flags i s) - frames s
   = int (logged (thread_step flags i s) - logged s) * (unroll_length flags * batch_size flags)"
  by (simp add: thread_step_def split: pc.splits)

lemma frames_logged_step:
  "frames s = int (logged s) * tb
   \<Longrightarrow> tb = unroll_length flags * batch_size flags
   \<Longrightarrow> frames (thread_step flags i s) = int (logged (thread_step flags i s)) * tb"
  by (simp add: thread_step_def algebra_simps split: pc.splits)

lemma frames_logged_run:
  "frames s = int (logged s) * (unroll_length flags * batch_size flags)
   \<Longrightarrow> frames (run_threads flags sched s)
       = int (logged (run_threads flags sched s)) * (unroll_length flags * batch_size flags)"
proof (induction sched arbitrary: s)
  case Nil
  then show ?case by simp
next
  case (Cons i sched)
  have "frames (thread_step flags i s)
        = int (logged (thread_step flags i s)) * (unroll_length flags * batch_size flags)"
    using Cons.prems by (rule frames_logged_step) simp
  then show ?case using Cons.IH by simp
qed

lemma filter_update_le:
  "i < length xs \<Longrightarrow> \<not> P y
   \<Longrightarrow> length (filter P (xs[i := y])) = length (filter P xs) - (if P (xs ! i) then 1 else 0)"
proof (induction xs arbitrary: i)
  case Nil
  then show ?case by simp
next
  case (Cons x xs)
  show ?case
  proof (cases i)
    case 0
    then show ?thesis using Cons.prems by simp
  next
    case (Suc k)
    then have k: "k < length xs" using Cons.prems by simp
    have pos: "P (xs ! k) \<Longrightarrow> 0 < length (filter P xs)"
      using k by (metis filter_empty_conv length_greater_0_conv nth_mem)
    show ?thesis using Suc Cons.IH [OF k Cons.prems(2)] pos by auto
  qed
qed

lemma filter_update_add:
  "i < length xs \<Longrightarrow> P y \<Longrightarrow> \<not> P (xs ! i)
   \<Longrightarrow> length (filter P (xs[i := y])) = Suc (length (filter P xs))"
proof (induction xs arbitrary: i)
  case Nil
  then show ?case by simp
next
  case (Cons x xs)
  show ?case
  proof (cases i)
    case 0
    then show ?thesis using Cons.prems by simp
  next
    case (Suc k)
    then show ?thesis using Cons.prems Cons.IH [of k] by simp
  qed
qed

lemma length_filter_pos:
  "i < length xs \<Longrightarrow> P (xs ! i) \<Longrightarrow> 0 < length (filter P xs)"
  by (metis filter_empty_conv length_greater_0_conv nth_mem)

lemma bounded_step:
  assumes tb: "0 \<le> unroll_length flags * batch_size flags" and b: "bounded flags s"
  shows "bounded flags (thread_step flags i s)"
proof (cases "i < length (pcs s)")
  case False
  then show ?thesis using b by (simp add: thread_step_def)
next
  case True
  let ?tb = "unroll_length flags * batch_size flags"
  show ?thesis
  proof (cases "pcs s ! i")
    case Exited
    then show ?thesis using b True by (simp add: thread_step_def)
  next
    case In_batch
    have pos: "0 < in_batch s"
      unfolding in_batch_def using True In_batch by (intro length_filter_pos [of i]) simp_all
    have ib: "in_batch (thread_step flags i s) = in_batch s - 1"
      using True In_batch by (simp add: thread_step_def in_batch_def filter_update_le)
    have fr: "frames (thread_step flags i s) = frames s + ?tb"
      using True In_batch by (simp add: thread_step_def)
    have "int (in_batch s - 1) = int (in_batch s) - 1" using pos by simp
    then have "frames (thread_step flags i s) + int (in_batch (thread_step flags i s)) * ?tb
          = frames s + int (in_batch s) * ?tb"
      by (simp add: ib fr algebra_simps)
    then show ?thesis using b by (simp add: bounded_def)
  next
    case At_check
    show ?thesis
    proof (cases "frames s < total_frames flags")
      case False
      have ib: "in_batch (thread_step flags i s) = in_batch s"
        using True At_check False by (simp add: thread_step_def in_batch_def filter_update_le)
      have fr: "frames (thread_step flags i s) = frames s"
        using True At_check False by (simp add: thread_step_def)
      show ?thesis using b by (simp add: bounded_def ib fr)
    next
      case lt: True
      have ib: "in_batch (thread_step flags i s) = Suc (in_batch s)"
        using True At_check lt by (simp add: thread_step_def in_batch_def filter_update_add)
      have fr: "frames (thread_step flags i s) = frames s"
        using True At_check lt by (simp add: thread_step_def)
      have "in_batch (thread_step flags i s) \<le> length (pcs s)"
        unfolding in_batch_def by (metis length_filter_le length_pcs_step)
      then have "int (Suc (in_batch s)) * ?tb \<le> int (length (pcs s)) * ?tb"
        using tb by (intro mult_right_mono) (simp_all add: ib)
      moreover have "frames s \<le> max 0 (total_frames flags - 1)" using lt by simp
      ultimately show ?thesis by (simp add: bounded_def ib fr)
    qed
  qed
qed

lemma bounded_run:
  assumes tb: "0 \<le> unroll_length flags * batch_size flags"
  shows "bounded flags s \<Longrightarrow> bounded flags (run_threads flags sched s)"
  by (induction sched arbitrary: s) (simp_all add: bounded_step [OF tb])

lemma bounded_initial:
  "0 \<le> unroll_length flags * batch_size flags \<Longrightarrow> bounded flags (initial_learners flags)"
  by (simp add: bounded_def initial_learners_def in_batch_def)

lemma le_div_of_mult_le:
  fixes a t u :: int
  assumes "0 < t" and "a * t \<le> u"
  shows "a \<le> u div t"
proof -
  have "a * t div t \<le> u div t" using assms(2) assms(1) by (rule zdiv_mono1)
  then show ?thesis using assms(1) by simp
qed

lemma logged_bound:
  assumes tb: "1 \<le> unroll_length flags * batch_size flags"
  shows "int (logged (run_threads flags sched (initial_learners flags)))
         \<le> max 0 (total_frames flags - 1) div (unroll_length flags * batch_size flags)
            + int (length (py_range (num_threads flags)))"
proof -
  let ?tb = "unroll_length flags * batch_size flags"
  let ?s = "run_threads flags sched (initial_learners flags)"
  let ?n = "int (length (py_range (num_threads flags)))"
  have tb0: "0 \<le> ?tb" using tb by simp
  have b: "bounded flags ?s" using bounded_initial [OF tb0] by (rule bounded_run [OF tb0])
  have f: "frames ?s = int (logged ?s) * ?tb"
    by (rule frames_logged_run) (simp add: initial_learners_def)
  have len: "int (length (pcs ?s)) = ?n" by (simp add: initial_learners_def)
  have nn: "0 \<le> int (in_batch ?s) * ?tb" using tb0 by simp
  have "int (logged ?s) * ?tb + int (in_batch ?s) * ?tb
        \<le> max 0 (total_frames flags - 1) + ?n * ?tb"
    using b unfolding bounded_def len f .
  then have "int (logged ?s) * ?tb \<le> max 0 (total_frames flags - 1) + ?n * ?tb"
    using nn by linarith
  then have "(int (logged ?s) - ?n) * ?tb \<le> max 0 (total_frames flags - 1)"
    by (simp add: algebra_simps)
  moreover have "0 < ?tb" using tb by linarith
  ultimately have "int (logged ?s) - ?n \<le> max 0 (total_frames flags - 1) div ?tb"
    by (intro le_div_of_mult_le)
  then show ?thesis by linarith
qed

lemma frames_mono_step:
  "0 \<le> unroll_length flags * batch_size flags \<Longrightarrow> frames s \<le> frames (thread_step flags i s)"
  by (simp add: thread_step_def split: pc.splits)

lemma rank_step_other:
  "j \<noteq> i \<Longrightarrow> pcs (thread_step flags j s) ! i = pcs s ! i"
  by (simp add: thread_step_def split: pc.splits)

lemma rank_step_self:
  assumes "i < length (pcs s)" and "total_frames flags \<le> frames s"
  shows "rank (pcs (thread_step flags i s) ! i) = rank (pcs s ! i) - 1"
  using assms by (cases "pcs s ! i") (simp_all add: thread_step_def)

lemma below_in_batch_step:
  assumes tb: "unroll_length flags * batch_size flags < 0" and b: "below_in_batch flags s"
  shows "below_in_batch flags (thread_step flags i s)"
proof (cases "i < length (pcs s)")
  case False
  then show ?thesis using b by (simp add: thread_step_def)
next
  case True
  show ?thesis
  proof (cases "pcs s ! i")
    case Exited
    then show ?thesis using b True by (simp add: thread_step_def)
  next
    case In_batch
    have "In_batch \<in> set (pcs s)" using True In_batch by (metis nth_mem)
    then have "frames s < total_frames flags" using b by (simp add: below_in_batch_def)
    moreover have "frames (thread_step flags i s) = frames s + unroll_length flags * batch_size flags"
      using True In_batch by (simp add: thread_step_def)
    ultimately show ?thesis using tb by (simp add: below_in_batch_def)
  next
    case At_check
    show ?thesis
    proof (cases "frames s < total_frames flags")
      case lt: True
      then show ?thesis using True At_check by (simp add: below_in_batch_def thread_step_def)
    next
      case False
      then have no: "In_batch \<notin> set (pcs s)" using b by (auto simp: below_in_batch_def)
      have "set (pcs (thread_step flags i s)) \<subseteq> insert Exited (set (pcs s))"
        using True At_check False by (simp add: thread_step_def set_update_subset_insert)
      then have "In_batch \<notin> set (pcs (thread_step flags i s))" using no by auto
      then show ?thesis by (simp add: below_in_batch_def)
    qed
  qed
qed

lemma below_in_batch_run:
  assumes tb: "unroll_length flags * batch_size flags < 0"
  shows "below_in_batch flags s \<Longrightarrow> below_in_batch flags (run_threads flags sched s)"
  by (induction sched arbitrary: s) (simp_all add: below_in_batch_step [OF tb])

lemma target_reached_initial_run:
  assumes "total_frames flags \<le> frames (run_threads flags sched (initial_learners flags))"
  shows "target_reached flags (run_threads flags sched (initial_learners flags))"
proof (cases "unroll_length flags * batch_size flags < 0")
  case False
  then show ?thesis using assms by (simp add: target_reached_def)
next
  case True
  have "below_in_batch flags (initial_learners flags)"
    by (auto simp: below_in_batch_def initial_learners_def)
  then have "below_in_batch flags (run_threads flags sched (initial_learners flags))"
    by (rule below_in_batch_run [OF True])
  then show ?thesis using assms by (auto simp: target_reached_def below_in_batch_def)
qed

lemma target_reached_step:
  assumes "target_reached flags s"
  shows "target_reached flags (thread_step flags i s)"
proof (cases "unroll_length flags * batch_size flags < 0")
  case False
  then have "frames s \<le> frames (thread_step flags i s)"
    by (intro frames_mono_step) simp
  then show ?thesis using assms False by (simp add: target_reached_def)
next
  case True
  have no: "In_batch \<notin> set (pcs s)" and ge: "total_frames flags \<le> frames s"
    using assms True by (simp_all add: target_reached_def)
  show ?thesis
  proof (cases "i < length (pcs s)")
    case False
    then show ?thesis using assms by (simp add: thread_step_def)
  next
    case lt: True
    then have ni: "pcs s ! i \<noteq> In_batch" using no by (metis nth_mem)
    show ?thesis
    proof (cases "pcs s ! i")
      case In_batch
      then show ?thesis using ni by simp
    next
      case Exited
      then show ?thesis using assms lt by (simp add: thread_step_def)
    next
      case At_check
      have "set (pcs (thread_step flags i s)) \<subseteq> insert Exited (set (pcs s))"
        using lt At_check ge by (simp add: thread_step_def set_update_subset_insert)
      then have "In_batch \<notin> set (pcs (thread_step flags i s))" using no by auto
      moreover have "frames (thread_step flags i s) = frames s"
        using lt At_check ge by (simp add: thread_step_def)
      ultimately show ?thesis using ge by (simp add: target_reached_def)
    qed
  qed
qed

lemma rank_run_reached:
  "i < length (pcs s) \<Longrightarrow> target_reached flags s
   \<Longrightarrow> rank (pcs (run_threads flags sched s) ! i) = rank (pcs s ! i) - count_list sched i"
proof (induction sched arbitrary: s)
  case Nil
  then show ?case by simp
next
  case (Cons j sched)
  have l: "i < length (pcs (thread_step flags j s))" using Cons.prems by simp
  have f: "target_reached flags (thread_step flags j s)"
    using Cons.prems(2) by (rule target_reached_step)
  have ge: "total_frames flags \<le> frames s" using Cons.prems(2) by (simp add: target_reached_def)
  have ih: "rank (pcs (run_threads flags sched (thread_step flags j s)) ! i)
            = rank (pcs (thread_step flags j s) ! i) - count_list sched i"
    using Cons.IH [OF l f] .
  show ?case
  proof (cases "j = i")
    case True
    then show ?thesis using ih rank_step_self [OF Cons.prems(1) ge] by simp
  next
    case False
    then show ?thesis using ih rank_step_other [of j i flags s] by simp
  qed
qed

lemma exits_once_reached:
  assumes "i < length (pcs s)" and "target_reached flags s" and "2 \<le> count_list sched i"
  shows "pcs (run_threads flags sched s) ! i = Exited"
proof -
  have "rank (pcs s ! i) \<le> 2" by (cases "pcs s ! i") simp_all
  then have "rank (pcs (run_threads flags sched s) ! i) = 0"
    using rank_run_reached [OF assms(1,2), of sched] assms(3) by simp
  then show ?thesis by (cases "pcs (run_threads flags sched s) ! i") simp_all
qed

lemma exited_ok_step:
  assumes tb: "0 \<le> unroll_length flags * batch_size flags" and e: "exited_ok flags s"
  shows "exited_ok flags (thread_step flags i s)"
proof -
  have m: "frames s \<le> frames (thread_step flags i s)" using tb by (rule frames_mono_step)
  show ?thesis
  proof (cases "i < length (pcs s)")
    case False
    then show ?thesis using e by (simp add: thread_step_def)
  next
    case True
    show ?thesis
    proof (cases "pcs s ! i")
      case Exited
      then show ?thesis using e True by (simp add: thread_step_def)
    next
      case In_batch
      have "set (pcs (thread_step flags i s)) \<subseteq> insert At_check (set (pcs s))"
        using True In_batch by (simp add: thread_step_def set_update_subset_insert)
      then have "Exited \<in> set (pcs (thread_step flags i s)) \<Longrightarrow> Exited \<in> set (pcs s)"
        by auto
      then show ?thesis using e m unfolding exited_ok_def by linarith
    next
      case At_check
      show ?thesis
      proof (cases "frames s < total_frames flags")
        case True': True
        have "set (pcs (thread_step flags i s)) \<subseteq> insert In_batch (set (pcs s))"
          using True At_check True' by (simp add: thread_step_def set_update_subset_insert)
        then have "Exited \<in> set (pcs (thread_step flags i s)) \<Longrightarrow> Exited \<in> set (pcs s)"
          by auto
        then show ?thesis using e m unfolding exited_ok_def by linarith
      next
        case False
        then show ?thesis using m unfolding exited_ok_def by linarith
      qed
    qed
  qed
qed

lemma exited_ok_run:
  assumes tb: "0 \<le> unroll_length flags * batch_size flags"
  shows "exited_ok flags s \<Longrightarrow> exited_ok flags (run_threads flags sched s)"
  by (induction sched arbitrary: s) (simp_all add: exited_ok_step [OF tb])


lemma logged_mono_step: "logged s \<le> logged (thread_step flags j s)"
  by (simp add: thread_step_def split: pc.splits)

lemma exited_stays: "pcs s ! i = Exited \<Longrightarrow> pcs (thread_step flags j s) ! i = Exited"
  by (cases "j = i") (simp_all add: thread_step_def nth_list_update split: pc.splits)

lemma potential_step:
  assumes i: "i < length (pcs s)" and B: "logged (thread_step flags j s) \<le> B"
  shows "potential B i (thread_step flags j s) + (if j = i \<and> pcs s ! i \<noteq> Exited then 1 else 0)
         \<le> potential B i s"
proof (cases "j = i")
  case False
  have "pcs (thread_step flags j s) ! i = pcs s ! i" using False by (rule rank_step_other)
  then show ?thesis
    using False logged_mono_step [of s flags j] by (simp add: potential_def)
next
  case True
  show ?thesis
  proof (cases "pcs s ! i")
    case Exited
    then show ?thesis using True i by (simp add: potential_def thread_step_def)
  next
    case At_check
    then show ?thesis using True i by (simp add: potential_def thread_step_def)
  next
    case In_batch
    have l: "logged (thread_step flags j s) = Suc (logged s)"
      using True i In_batch by (simp add: thread_step_def)
    have p: "pcs (thread_step flags j s) ! i = At_check"
      using True i In_batch by (simp add: thread_step_def)
    have "Suc (logged s) \<le> B" using B l by simp
    then have "2 * (B - Suc (logged s)) + 2 + 1 \<le> 2 * (B - logged s) + 1" by simp
    moreover have "potential B i (thread_step flags j s) = 2 * (B - Suc (logged s)) + 2"
      by (simp add: potential_def l p)
    moreover have "potential B i s = 2 * (B - logged s) + 1"
      using In_batch by (simp add: potential_def)
    ultimately show ?thesis using True In_batch by simp
  qed
qed

lemma own_steps_bounded:
  assumes tb: "1 \<le> unroll_length flags * batch_size flags"
    and B: "B = nat (max 0 (total_frames flags - 1) div (unroll_length flags * batch_size flags))
              + length (py_range (num_threads flags))"
    and i: "i < length (py_range (num_threads flags))"
  shows "pcs (run_threads flags sched (initial_learners flags)) ! i \<noteq> Exited
         \<Longrightarrow> count_list sched i + potential B i (run_threads flags sched (initial_learners flags))
             \<le> potential B i (initial_learners flags)"
proof (induction sched rule: rev_induct)
  case Nil
  then show ?case by simp
next
  case (snoc j xs)
  let ?s = "run_threads flags xs (initial_learners flags)"
  have run: "run_threads flags (xs @ [j]) (initial_learners flags) = thread_step flags j ?s"
    by (simp add: run_threads_append)
  have ne: "pcs ?s ! i \<noteq> Exited"
    using snoc.prems exited_stays [of ?s i flags j] unfolding run by blast
  have ih: "count_list xs i + potential B i ?s \<le> potential B i (initial_learners flags)"
    using snoc.IH [OF ne] .
  have len: "i < length (pcs ?s)" using i by (simp add: initial_learners_def)
  have "int (logged (thread_step flags j ?s))
        \<le> max 0 (total_frames flags - 1) div (unroll_length flags * batch_size flags)
           + int (length (py_range (num_threads flags)))"
    using logged_bound [OF tb, of "xs @ [j]"] unfolding run .
  then have lb: "logged (thread_step flags j ?s) \<le> B" unfolding B by linarith
  have "potential B i (thread_step flags j ?s) + (if j = i \<and> pcs ?s ! i \<noteq> Exited then 1 else 0)
        \<le> potential B i ?s"
    using len lb by (rule potential_step)
  then show ?case using ih ne unfolding run by (simp split: if_splits)
qed

lemma thread_exits:
  assumes tb: "1 \<le> unroll_length flags * batch_size flags"
    and i: "i < length (py_range (num_threads flags))"
    and c: "2 * (nat (max 0 (total_frames flags - 1) div (unroll_length flags * batch_size flags))
              + length (py_range (num_threads flags))) + 2 < count_list sched i"
  shows "pcs (run_threads flags sched (initial_learners flags)) ! i = Exited"
proof (rule ccontr)
  define B where "B = nat (max 0 (total_frames flags - 1) div (unroll_length flags * batch_size flags))
              + length (py_range (num_threads flags))"
  assume "pcs (run_threads flags sched (initial_learners flags)) ! i \<noteq> Exited"
  then have "count_list sched i + potential B i (run_threads flags sched (initial_learners flags))
             \<le> potential B i (initial_learners flags)"
    using own_steps_bounded [OF tb B_def i] by blast
  moreover have "potential B i (initial_learners flags) = 2 * B + 2"
    using i by (simp add: potential_def initial_learners_def)
  ultimately show False using c unfolding B_def by linarith
qed

text \<open>A thread inside an iteration finishes it: the learning step is the only way on.\<close>

lemma in_batch_step:
  assumes "i < length (pcs s)" and "pcs s ! i = In_batch"
  shows "thread_step flags i s
         = s\<lparr>frames := frames s + unroll_length flags * batch_size flags,
              logged := Suc (logged s),
              pcs := (pcs s)[i := At_check]\<rparr>"
  using assms by (simp add: thread_step_def)

lemma at_check_step:
  assumes "i < length (pcs s)" and "pcs s ! i = At_check"
  shows "thread_step flags i s
         = (if frames s < total_frames flags
            then s\<lparr>pcs := (pcs s)[i := In_batch]\<rparr>
            else s\<lparr>pcs := (pcs s)[i := Exited]\<rparr>)"
  using assms by (simp add: thread_step_def)

lemma exited_only_from_check:
  assumes j: "j < length (pcs s)" and e: "pcs (thread_step flags i s) ! j = Exited"
  shows "pcs s ! j = Exited
         \<or> (j = i \<and> pcs s ! i = At_check \<and> total_frames flags \<le> frames s)"
proof (cases "j = i")
  case False
  then show ?thesis using e rank_step_other [of i j flags s] by simp
next
  case True
  show ?thesis
  proof (cases "pcs s ! i")
    case Exited
    then show ?thesis using True by simp
  next
    case In_batch
    have "pcs (thread_step flags i s) ! i = At_check"
      using j True In_batch by (simp add: thread_step_def)
    then show ?thesis using e True by simp
  next
    case At_check
    show ?thesis
    proof (cases "frames s < total_frames flags")
      case lt: True
      have "pcs (thread_step flags i s) ! i = In_batch"
        using j True At_check lt by (simp add: thread_step_def)
      then show ?thesis using e True by simp
    next
      case False
      then show ?thesis using True At_check by simp
    qed
  qed
qed

lemma logged_mono_run: "logged s \<le> logged (run_threads flags sched s)"
proof (induction sched arbitrary: s)
  case Nil
  then show ?case by simp
next
  case (Cons j sched)
  have "logged s \<le> logged (thread_step flags j s)" by (rule logged_mono_step)
  also have "\<dots> \<le> logged (run_threads flags sched (thread_step flags j s))" by (rule Cons.IH)
  finally show ?case by simp
qed

lemma finishes_batch_before_exit:
  "i < length (pcs s) \<Longrightarrow> pcs s ! i = In_batch
   \<Longrightarrow> pcs (run_threads flags sched s) ! i = Exited
   \<Longrightarrow> logged s < logged (run_threads flags sched s)"
proof (induction sched arbitrary: s)
  case Nil
  then show ?case by simp
next
  case (Cons j sched)
  show ?case
  proof (cases "j = i")
    case True
    have "logged (thread_step flags j s) = Suc (logged s)"
      using True Cons.prems(1,2) by (simp add: thread_step_def)
    moreover have "logged (thread_step flags j s)
                   \<le> logged (run_threads flags sched (thread_step flags j s))"
      by (rule logged_mono_run)
    ultimately show ?thesis by simp
  next
    case False
    have p: "pcs (thread_step flags j s) ! i = In_batch"
      using False Cons.prems(2) rank_step_other [of j i flags s] by simp
    have l: "i < length (pcs (thread_step flags j s))" using Cons.prems(1) by simp
    have e: "pcs (run_threads flags sched (thread_step flags j s)) ! i = Exited"
      using Cons.prems(3) by simp
    have "logged (thread_step flags j s) < logged (run_threads flags sched (thread_step flags j s))"
      using Cons.IH [OF l p e] .
    moreover have "logged s \<le> logged (thread_step flags j s)" by (rule logged_mono_step)
    ultimately show ?thesis by simp
  qed
qed

text \<open>
  Claim C9. Every completed learning step adds exactly \<open>unroll_length * batch_size\<close> to
  the counter, so under every interleaving of the learner threads the counter is a
  multiple of it; and once the counter has reached the target, a thread leaves the loop
  within two of its own steps (the rest of its current iteration, then the loop test). A
  thread inside an iteration always finishes it: its step is the learning step, which adds
  the frames, logs the statistics and leads back to the loop test; a thread gets past the
  loop only from the loop test, with the counter at the target; so a thread that was inside
  an iteration and is past the loop has completed that learning step. For
  \<open>unroll_length * batch_size \<ge> 1\<close> the number of completed learning steps is bounded,
  so the loops perform finitely many iterations; a thread that is scheduled often enough
  is past its loop; and a thread is past its loop only if the counter has reached the
  target.
\<close>

theorem batch_and_learn_loop:
  "frames (thread_step flags i s)
     = frames s + int (logged (thread_step flags i s) - logged s)
                  * (unroll_length flags * batch_size flags)
   \<and> (unroll_length flags * batch_size flags)
       dvd frames (run_threads flags sched (initial_learners flags))
   \<and> (i < length (pcs s) \<and> pcs s ! i = In_batch \<longrightarrow>
        thread_step flags i s
          = s\<lparr>frames := frames s + unroll_length flags * batch_size flags,
               logged := Suc (logged s),
               pcs := (pcs s)[i := At_check]\<rparr>)
   \<and> (i < length (pcs s) \<and> pcs s ! i = At_check \<longrightarrow>
        thread_step flags i s
          = (if frames s < total_frames flags
             then s\<lparr>pcs := (pcs s)[i := In_batch]\<rparr>
             else s\<lparr>pcs := (pcs s)[i := Exited]\<rparr>))
   \<and> (j < length (pcs s) \<and> pcs (thread_step flags i s) ! j = Exited \<longrightarrow>
        pcs s ! j = Exited
        \<or> (j = i \<and> pcs s ! i = At_check \<and> total_frames flags \<le> frames s))
   \<and> (i < length (pcs s) \<and> pcs s ! i = In_batch
        \<and> pcs (run_threads flags sched' s) ! i = Exited
      \<longrightarrow> logged s < logged (run_threads flags sched' s))
   \<and> (i < length (py_range (num_threads flags))
        \<and> total_frames flags \<le> frames (run_threads flags sched (initial_learners flags))
        \<and> 2 \<le> count_list sched' i
      \<longrightarrow> pcs (run_threads flags sched'
                 (run_threads flags sched (initial_learners flags))) ! i = Exited)
   \<and> (1 \<le> unroll_length flags * batch_size flags \<longrightarrow>
        int (logged (run_threads flags sched (initial_learners flags)))
          \<le> max 0 (total_frames flags - 1) div (unroll_length flags * batch_size flags)
             + int (length (py_range (num_threads flags)))
        \<and> (i < length (py_range (num_threads flags))
             \<and> 2 * (nat (max 0 (total_frames flags - 1)
                         div (unroll_length flags * batch_size flags))
                    + length (py_range (num_threads flags))) + 2 < count_list sched i
           \<longrightarrow> pcs (run_threads flags sched (initial_learners flags)) ! i = Exited)
        \<and> (Exited \<in> set (pcs (run_threads flags sched (initial_learners flags)))
           \<longrightarrow> total_frames flags \<le> frames (run_threads flags sched (initial_learners flags))))"
proof -
  let ?tb = "unroll_length flags * batch_size flags"
  let ?s = "run_threads flags sched (initial_learners flags)"
  have a: "frames (thread_step flags i s)
           = frames s + int (logged (thread_step flags i s) - logged s) * ?tb"
    using thread_step_frames [of flags i s] by simp
  have f: "frames ?s = int (logged ?s) * ?tb"
    by (rule frames_logged_run) (simp add: initial_learners_def)
  have b: "?tb dvd frames ?s" unfolding f by simp
  have len: "length (pcs ?s) = length (py_range (num_threads flags))"
    by (simp add: initial_learners_def)
  have e: "i < length (py_range (num_threads flags))
            \<and> total_frames flags \<le> frames ?s \<and> 2 \<le> count_list sched' i
          \<longrightarrow> pcs (run_threads flags sched' ?s) ! i = Exited"
    using exits_once_reached [of i ?s flags sched'] target_reached_initial_run [of flags sched] len
    by simp
  have r: "int (logged ?s) \<le> max 0 (total_frames flags - 1) div ?tb
              + int (length (py_range (num_threads flags)))
        \<and> (i < length (py_range (num_threads flags))
             \<and> 2 * (nat (max 0 (total_frames flags - 1) div ?tb)
                    + length (py_range (num_threads flags))) + 2 < count_list sched i
           \<longrightarrow> pcs ?s ! i = Exited)
        \<and> (Exited \<in> set (pcs ?s) \<longrightarrow> total_frames flags \<le> frames ?s)"
    if tb: "1 \<le> ?tb"
  proof -
    have tb0: "0 \<le> ?tb" using tb by simp
    have c: "int (logged ?s) \<le> max 0 (total_frames flags - 1) div ?tb
              + int (length (py_range (num_threads flags)))"
      using tb by (rule logged_bound)
    have d: "i < length (py_range (num_threads flags))
            \<and> 2 * (nat (max 0 (total_frames flags - 1) div ?tb)
                   + length (py_range (num_threads flags))) + 2 < count_list sched i
          \<longrightarrow> pcs ?s ! i = Exited"
      using thread_exits [OF tb, of i sched] by blast
    have "exited_ok flags (initial_learners flags)"
      by (auto simp: exited_ok_def initial_learners_def)
    then have "exited_ok flags ?s" by (rule exited_ok_run [OF tb0])
    then have g: "Exited \<in> set (pcs ?s) \<longrightarrow> total_frames flags \<le> frames ?s"
      by (simp add: exited_ok_def)
    from c d g show ?thesis by blast
  qed
  have n1: "i < length (pcs s) \<and> pcs s ! i = In_batch \<longrightarrow>
        thread_step flags i s
          = s\<lparr>frames := frames s + ?tb, logged := Suc (logged s),
               pcs := (pcs s)[i := At_check]\<rparr>"
    using in_batch_step [of i s flags] by blast
  have n2: "i < length (pcs s) \<and> pcs s ! i = At_check \<longrightarrow>
        thread_step flags i s
          = (if frames s < total_frames flags
             then s\<lparr>pcs := (pcs s)[i := In_batch]\<rparr>
             else s\<lparr>pcs := (pcs s)[i := Exited]\<rparr>)"
    using at_check_step [of i s flags] by blast
  have n3: "j < length (pcs s) \<and> pcs (thread_step flags i s) ! j = Exited \<longrightarrow>
        pcs s ! j = Exited
        \<or> (j = i \<and> pcs s ! i = At_check \<and> total_frames flags \<le> frames s)"
    using exited_only_from_check [of j s flags i] by blast
  have n4: "i < length (pcs s) \<and> pcs s ! i = In_batch
        \<and> pcs (run_threads flags sched' s) ! i = Exited
      \<longrightarrow> logged s < logged (run_threads flags sched' s)"
    using finishes_batch_before_exit [of i s flags sched'] by blast
  from a b n1 n2 n3 n4 e r show ?thesis by blast
qed


text \<open>
  Two threads and a target of 4 frames: both threads enter an iteration below the target,
  three learning steps complete, the counter ends at 9 and both threads leave. When the
  counter stands at 6, above the target, thread 0 is still inside an iteration: its next
  step is the learning step (counter 9, third record), and only then does it leave.
\<close>

theorem batch_and_learn_loop_witness:
  "1 \<le> unroll_length loop_flags * batch_size loop_flags
   \<and> run_threads loop_flags [0, 1, 0, 0, 1, 0, 0, 1] (initial_learners loop_flags)
       = \<lparr>frames = 9, logged = 3, pcs = [Exited, Exited]\<rparr>
   \<and> unroll_length loop_flags * batch_size loop_flags
       dvd frames (run_threads loop_flags [0, 1, 0, 0, 1, 0, 0, 1] (initial_learners loop_flags))
   \<and> int (logged (run_threads loop_flags [0, 1, 0, 0, 1, 0, 0, 1] (initial_learners loop_flags)))
       \<le> max 0 (total_frames loop_flags - 1) div (unroll_length loop_flags * batch_size loop_flags)
          + int (length (py_range (num_threads loop_flags)))
   \<and> (1 < length (py_range (num_threads loop_flags))
        \<and> total_frames loop_flags
            \<le> frames (run_threads loop_flags [0, 1, 0, 0, 1, 0] (initial_learners loop_flags))
        \<and> 2 \<le> count_list [1, 0, 1] (1::nat))
   \<and> pcs (run_threads loop_flags [1, 0, 1]
            (run_threads loop_flags [0, 1, 0, 0, 1, 0] (initial_learners loop_flags))) ! 1 = Exited
   \<and> run_threads loop_flags [0, 1, 0, 0, 1] (initial_learners loop_flags)
       = \<lparr>frames = 6, logged = 2, pcs = [In_batch, At_check]\<rparr>
   \<and> thread_step loop_flags 0 \<lparr>frames = 6, logged = 2, pcs = [In_batch, At_check]\<rparr>
       = \<lparr>frames = 9, logged = 3, pcs = [At_check, At_check]\<rparr>
   \<and> thread_step loop_flags 0 \<lparr>frames = 9, logged = 3, pcs = [At_check, At_check]\<rparr>
       = \<lparr>frames = 9, logged = 3, pcs = [Exited, At_check]\<rparr>
   \<and> pcs (run_threads loop_flags [0, 0]
            \<lparr>frames = 6, logged = 2, pcs = [In_batch, At_check]\<rparr>) ! 0 = Exited
   \<and> logged \<lparr>frames = 6, logged = 2, pcs = [In_batch, At_check]\<rparr>
       < logged (run_threads loop_flags [0, 0]
                  \<lparr>frames = 6, logged = 2, pcs = [In_batch, At_check]\<rparr>)
   \<and> (pcs \<lparr>frames = 9, logged = 3, pcs = [At_check, At_check]\<rparr> ! 0 = Exited
        \<or> ((0::nat) = 0
            \<and> pcs \<lparr>frames = 9, logged = 3, pcs = [At_check, At_check]\<rparr> ! 0 = At_check
            \<and> total_frames loop_flags
                \<le> frames \<lparr>frames = 9, logged = 3, pcs = [At_check, At_check]\<rparr>))"
proof -
  let ?s5 = "\<lparr>frames = 6, logged = 2, pcs = [In_batch, At_check]\<rparr>"
  let ?s6 = "\<lparr>frames = 9, logged = 3, pcs = [At_check, At_check]\<rparr>"
  have h: "1 \<le> unroll_length loop_flags * batch_size loop_flags"
    by (simp add: loop_flags_def scenario_flags_def)
  have v: "unroll_length loop_flags = 3" "batch_size loop_flags = 1" "total_frames loop_flags = 4"
    by (simp_all add: loop_flags_def scenario_flags_def)
  have u2: "[0..<2] = [0, Suc 0]" by (simp add: upt_rec)
  have init: "initial_learners loop_flags = \<lparr>frames = 0, logged = 0, pcs = [At_check, At_check]\<rparr>"
    by (simp add: initial_learners_def py_range_def loop_flags_def scenario_flags_def u2)
  have n: "length (py_range (num_threads loop_flags)) = 2"
    by (simp add: py_range_def loop_flags_def scenario_flags_def)
  have r: "run_threads loop_flags [0, 1, 0, 0, 1, 0, 0, 1] (initial_learners loop_flags)
           = \<lparr>frames = 9, logged = 3, pcs = [Exited, Exited]\<rparr>"
    by (simp add: init thread_step_def v)
  have r': "frames (run_threads loop_flags [0, 1, 0, 0, 1, 0] (initial_learners loop_flags)) = 9"
    by (simp add: init thread_step_def v)
  have r5: "run_threads loop_flags [0, 1, 0, 0, 1] (initial_learners loop_flags) = ?s5"
    by (simp add: init thread_step_def v)
  have p: "1 < length (py_range (num_threads loop_flags))
        \<and> total_frames loop_flags
            \<le> frames (run_threads loop_flags [0, 1, 0, 0, 1, 0] (initial_learners loop_flags))
        \<and> 2 \<le> count_list [1, 0, 1] (1::nat)"
    unfolding n r' v by simp
  have in5: "0 < length (pcs ?s5) \<and> pcs ?s5 ! 0 = In_batch" by simp
  have at6: "0 < length (pcs ?s6) \<and> pcs ?s6 ! 0 = At_check" by simp
  have ex: "pcs (run_threads loop_flags [0, 0] ?s5) ! 0 = Exited"
    by (simp add: thread_step_def v)
  from batch_and_learn_loop [where flags = loop_flags and sched = "[0, 1, 0, 0, 1, 0, 0, 1]"] h
  have a: "unroll_length loop_flags * batch_size loop_flags
       dvd frames (run_threads loop_flags [0, 1, 0, 0, 1, 0, 0, 1] (initial_learners loop_flags))"
    and b: "int (logged (run_threads loop_flags [0, 1, 0, 0, 1, 0, 0, 1] (initial_learners loop_flags)))
       \<le> max 0 (total_frames loop_flags - 1) div (unroll_length loop_flags * batch_size loop_flags)
          + int (length (py_range (num_threads loop_flags)))"
    by blast+
  from batch_and_learn_loop [where flags = loop_flags and i = 1
      and sched = "[0, 1, 0, 0, 1, 0]" and sched' = "[1, 0, 1]"] p
  have c: "pcs (run_threads loop_flags [1, 0, 1]
            (run_threads loop_flags [0, 1, 0, 0, 1, 0] (initial_learners loop_flags))) ! 1 = Exited"
    by blast
  note t5 = batch_and_learn_loop [where flags = loop_flags and i = 0 and s = ?s5
      and sched' = "[0, 0]"]
  from t5 in5 have st5: "thread_step loop_flags 0 ?s5
      = ?s5\<lparr>frames := frames ?s5 + unroll_length loop_flags * batch_size loop_flags,
            logged := Suc (logged ?s5), pcs := (pcs ?s5)[0 := At_check]\<rparr>"
    by blast
  then have st5': "thread_step loop_flags 0 ?s5 = ?s6" by (simp add: v)
  from t5 in5 ex have lg: "logged ?s5 < logged (run_threads loop_flags [0, 0] ?s5)"
    by blast
  note t6 = batch_and_learn_loop [where flags = loop_flags and i = 0 and j = 0 and s = ?s6]
  from t6 at6 have st6: "thread_step loop_flags 0 ?s6
      = (if frames ?s6 < total_frames loop_flags
         then ?s6\<lparr>pcs := (pcs ?s6)[0 := In_batch]\<rparr>
         else ?s6\<lparr>pcs := (pcs ?s6)[0 := Exited]\<rparr>)"
    by blast
  then have st6': "thread_step loop_flags 0 ?s6
      = \<lparr>frames = 9, logged = 3, pcs = [Exited, At_check]\<rparr>"
    by (simp add: v)
  have e6: "0 < length (pcs ?s6) \<and> pcs (thread_step loop_flags 0 ?s6) ! 0 = Exited"
    unfolding st6' by simp
  from t6 e6 have o: "pcs ?s6 ! 0 = Exited
        \<or> ((0::nat) = 0 \<and> pcs ?s6 ! 0 = At_check
            \<and> total_frames loop_flags \<le> frames ?s6)"
    by blast
  from h r a b p c r5 st5' st6' ex lg o show ?thesis by blast
qed

section \<open>Properties of the buffer pool\<close>


lemma slot_indices_append [simp]:
  "slot_indices (xs @ ys) = slot_indices xs @ slot_indices ys"
  by (induction xs rule: slot_indices.induct) simp_all

lemma slot_indices_map_Some [simp]: "slot_indices (map Some ms) = ms"
  by (induction ms) simp_all

lemma slot_indices_replicate_None [simp]: "slot_indices (replicate k None) = []"
  by (induction k) simp_all

lemma mset_snd_remove1:
  assumes "x \<in> set xs"
  shows "mset (map snd (remove1 x xs)) + {#snd x#} = mset (map snd xs)"
proof -
  have "mset (remove1 x xs) + {#x#} = mset xs" using assms by simp
  then have "image_mset snd (mset (remove1 x xs) + {#x#}) = image_mset snd (mset xs)"
    by simp
  then show ?thesis by simp
qed

lemma all_slots_step:
  "all_slots (pool_step x s)
   = all_slots s + (case x of Train_put (Some m) \<Rightarrow> {#m#} | _ \<Rightarrow> {#})"
proof (cases x)
  case (Train_put v)
  then show ?thesis by (cases v) (simp_all add: all_slots_def)
next
  case (Acquire_free a)
  show ?thesis
  proof (cases "free_queue s")
    case Nil
    then show ?thesis using Acquire_free by simp
  next
    case (Cons v q)
    then show ?thesis using Acquire_free by (cases v) (simp_all add: all_slots_def)
  qed
next
  case (Publish_full a m)
  show ?thesis
  proof (cases "(a, m) \<in> set (actor_slots s)")
    case False
    then show ?thesis using Publish_full by simp
  next
    case True
    from mset_snd_remove1 [OF True]
    have "mset (map snd (remove1 (a, m) (actor_slots s))) + {#m#} = mset (map snd (actor_slots s))"
      by simp
    then show ?thesis using Publish_full True by (simp add: all_slots_def ac_simps)
  qed
next
  case (Acquire_full l)
  then show ?thesis by (cases "full_queue s") (simp_all add: all_slots_def)
next
  case (Release l m)
  show ?thesis
  proof (cases "(l, m) \<in> set (learner_slots s)")
    case False
    then show ?thesis using Release by simp
  next
    case True
    from mset_snd_remove1 [OF True]
    have "mset (map snd (remove1 (l, m) (learner_slots s))) + {#m#} = mset (map snd (learner_slots s))"
      by simp
    then show ?thesis using Release True by (simp add: all_slots_def ac_simps)
  qed
qed

lemma op_puts_slots:
  "mset (slot_indices (op_puts (x # ops)))
   = (case x of Train_put (Some m) \<Rightarrow> {#m#} | _ \<Rightarrow> {#}) + mset (slot_indices (op_puts ops))"
proof (cases x)
  case (Train_put v)
  then show ?thesis by (cases v) simp_all
qed simp_all

lemma all_slots_run:
  "all_slots (run_pool ops s) = all_slots s + mset (slot_indices (op_puts ops))"
proof (induction ops arbitrary: s)
  case Nil
  then show ?case by simp
next
  case (Cons x ops)
  have "all_slots (run_pool (x # ops) s)
        = all_slots (pool_step x s) + mset (slot_indices (op_puts ops))"
    using Cons.IH [of "pool_step x s"] by (simp only: run_pool.simps)
  also have "\<dots> = all_slots s + (case x of Train_put (Some m) \<Rightarrow> {#m#} | _ \<Rightarrow> {#})
                  + mset (slot_indices (op_puts ops))"
    by (simp only: all_slots_step)
  also have "\<dots> = all_slots s + mset (slot_indices (op_puts (x # ops)))"
    by (simp only: op_puts_slots add.assoc)
  finally show ?case .
qed

lemma all_slots_empty [simp]: "all_slots empty_pool = {#}"
  by (simp add: all_slots_def empty_pool_def)

lemma size_all_slots:
  "size (all_slots s)
   = length (slot_indices (free_queue s)) + length (full_queue s)
     + length (actor_slots s) + length (learner_slots s)"
  by (simp add: all_slots_def)

lemma sentinels_step:
  "sentinels (free_queue (pool_step x s)) + length (stopped (pool_step x s))
   = sentinels (free_queue s) + length (stopped s)
     + (case x of Train_put None \<Rightarrow> 1 | _ \<Rightarrow> 0)"
proof (cases x)
  case (Train_put v)
  then show ?thesis by (cases v) (simp_all add: sentinels_def)
next
  case (Acquire_free a)
  show ?thesis
  proof (cases "free_queue s")
    case Nil
    then show ?thesis using Acquire_free by simp
  next
    case (Cons v q)
    then show ?thesis using Acquire_free by (cases v) (simp_all add: sentinels_def)
  qed
next
  case (Publish_full a m)
  then show ?thesis by simp
next
  case (Acquire_full l)
  then show ?thesis by (cases "full_queue s") simp_all
next
  case (Release l m)
  then show ?thesis by (simp add: sentinels_def)
qed

lemma op_puts_sentinels:
  "sentinels (op_puts (x # ops))
   = (case x of Train_put None \<Rightarrow> 1 | _ \<Rightarrow> 0) + sentinels (op_puts ops)"
proof (cases x)
  case (Train_put v)
  then show ?thesis by (cases v) (simp_all add: sentinels_def)
qed (simp_all add: sentinels_def)

lemma sentinels_run:
  "sentinels (free_queue (run_pool ops s)) + length (stopped (run_pool ops s))
   = sentinels (free_queue s) + length (stopped s) + sentinels (op_puts ops)"
proof (induction ops arbitrary: s)
  case Nil
  then show ?case by (simp add: sentinels_def)
next
  case (Cons x ops)
  have "sentinels (free_queue (run_pool (x # ops) s)) + length (stopped (run_pool (x # ops) s))
        = sentinels (free_queue (pool_step x s)) + length (stopped (pool_step x s))
          + sentinels (op_puts ops)"
    using Cons.IH [of "pool_step x s"] by (simp only: run_pool.simps)
  also have "\<dots> = sentinels (free_queue s) + length (stopped s)
                  + (case x of Train_put None \<Rightarrow> 1 | _ \<Rightarrow> 0) + sentinels (op_puts ops)"
    by (simp only: sentinels_step)
  also have "\<dots> = sentinels (free_queue s) + length (stopped s) + sentinels (op_puts (x # ops))"
    by (simp only: op_puts_sentinels add.assoc)
  finally show ?case .
qed

lemma train_puts_append [simp]: "train_puts (xs @ ys) = train_puts xs @ train_puts ys"
  by (induction xs rule: train_puts.induct) simp_all

lemma train_puts_none:
  "(\<And>v. Put_free v \<notin> set es) \<Longrightarrow> train_puts es = []"
  by (induction es rule: train_puts.induct) auto

lemma train_puts_map_put [simp]: "train_puts (map (\<lambda>m. Put_free (f m)) ms) = map f ms"
  by (induction ms) simp_all

lemma train_puts_replicate_put [simp]: "train_puts (replicate k (Put_free v)) = replicate k v"
  by (induction k) simp_all

lemma train_puts_startup:
  "train_puts (startup_events flags) = map Some [0..<nat (num_buffers flags)]"
proof -
  have a: "train_puts (map Start_actor xs) = []" for xs by (rule train_puts_none) auto
  have b: "train_puts (map Start_thread xs) = []" for xs by (rule train_puts_none) auto
  show ?thesis by (simp add: startup_events_def py_range_def a b)
qed

lemma train_puts_finally:
  "train_puts (finally_events flags) = replicate (nat (num_actors flags)) None"
proof -
  have a: "train_puts (map Join_actor xs) = []" for xs by (rule train_puts_none) auto
  show ?thesis by (simp add: finally_events_def py_range_def a map_replicate_const)
qed

lemma train_puts_checkpoint: "train_puts (checkpoint_events flags) = []"
  by (simp add: checkpoint_events_def)

lemma train_puts_periodic: "train_puts (concat (replicate k (checkpoint_events flags))) = []"
  by (induction k) (simp_all add: train_puts_checkpoint)

lemma train_puts_train:
  assumes "init_models_and_states flags fs fresh = Inr ms"
  shows "train_puts (fst (train flags fs fresh w))
         = map Some [0..<nat (num_buffers flags)] @ replicate (nat (num_actors flags)) None"
proof -
  have a: "train_puts (map Join_thread xs) = []" for xs by (rule train_puts_none) auto
  show ?thesis
    using assms
    by (cases w)
       (simp_all add: train_def train_puts_startup train_puts_finally train_puts_periodic a
          train_puts_checkpoint)
qed


lemma run_pool_train_puts:
  "run_pool (map Train_put vs) s = s\<lparr>free_queue := free_queue s @ vs\<rparr>"
  by (induction vs arbitrary: s) simp_all

text \<open>
  Claim C5, as amended. \<open>train\<close> puts each slot index \<open>0, ..., N - 1\<close> into the free
  queue once, in order, and after them only one sentinel per actor; with no worker
  interfering, the filled pool has the \<open>N\<close> indices in the free queue and an empty full
  queue. Under every interleaving of buffer operations of any actors and learner threads,
  the slot indices in the pool (in the free queue, sentinels not counted, in the full queue,
  or owned by an actor or a learner) are exactly those put so far; so once the \<open>N\<close> indices
  are in, their number is \<open>N\<close> after every operation, each index occurring once, and the
  sentinels in the free queue and the actors stopped by one add up to the sentinels put.
\<close>

theorem pool_conservation:
  "(init_models_and_states flags fs fresh = Inr ms \<longrightarrow>
      train_puts (fst (train flags fs fresh w))
        = map Some [0..<nat (num_buffers flags)] @ replicate (nat (num_actors flags)) None)
   \<and> run_pool (map Train_put (map Some [0..<N])) empty_pool
       = empty_pool\<lparr>free_queue := map Some [0..<N]\<rparr>
   \<and> all_slots (run_pool ops empty_pool) = mset (slot_indices (op_puts ops))
   \<and> (op_puts ops = map Some [0..<N] @ replicate k None \<longrightarrow>
        all_slots (run_pool ops empty_pool) = mset [0..<N]
        \<and> length (slot_indices (free_queue (run_pool ops empty_pool)))
            + length (full_queue (run_pool ops empty_pool))
            + length (actor_slots (run_pool ops empty_pool))
            + length (learner_slots (run_pool ops empty_pool)) = N
        \<and> sentinels (free_queue (run_pool ops empty_pool))
            + length (stopped (run_pool ops empty_pool)) = k)"
proof -
  let ?s = "run_pool ops empty_pool"
  have a: "init_models_and_states flags fs fresh = Inr ms \<longrightarrow>
      train_puts (fst (train flags fs fresh w))
        = map Some [0..<nat (num_buffers flags)] @ replicate (nat (num_actors flags)) None"
    using train_puts_train [of flags fs fresh ms w] by blast
  have b: "run_pool (map Train_put (map Some [0..<N])) empty_pool
       = empty_pool\<lparr>free_queue := map Some [0..<N]\<rparr>"
    by (simp only: run_pool_train_puts) (simp add: empty_pool_def)
  have c: "all_slots ?s = mset (slot_indices (op_puts ops))"
    by (simp add: all_slots_run)
  have d: "all_slots ?s = mset [0..<N]
        \<and> length (slot_indices (free_queue ?s)) + length (full_queue ?s)
            + length (actor_slots ?s) + length (learner_slots ?s) = N
        \<and> sentinels (free_queue ?s) + length (stopped ?s) = k"
    if p: "op_puts ops = map Some [0..<N] @ replicate k None"
  proof -
    have m: "all_slots ?s = mset [0..<N]" unfolding c p by simp
    have "size (all_slots ?s) = N" unfolding m by simp
    then have n: "length (slot_indices (free_queue ?s)) + length (full_queue ?s)
            + length (actor_slots ?s) + length (learner_slots ?s) = N"
      by (simp only: size_all_slots)
    have "sentinels (op_puts ops) = k" unfolding p by (simp add: sentinels_def)
    then have "sentinels (free_queue ?s) + length (stopped ?s) = k"
      using sentinels_run [of ops empty_pool] by (simp add: empty_pool_def sentinels_def)
    with m n show ?thesis by blast
  qed
  from a b c d show ?thesis by blast
qed

text \<open>
  The scenario's \<open>train\<close> run puts four indices and two sentinels; after the
  interleaving the free queue holds three indices and two sentinels, and actor 1 owns the
  fourth slot.
\<close>

theorem pool_conservation_witness:
  "init_models_and_states scenario_flags scenario_fs scenario_fresh
     = Inr (scenario_fresh\<lparr>actor_exploration_model := None, learner_exploration_model := None\<rparr>)
   \<and> train_puts (fst (train scenario_flags scenario_fs scenario_fresh (Completed 0)))
     = [Some 0, Some 1, Some 2, Some 3, None, None]
   \<and> op_puts scenario_ops = map Some [0..<4] @ replicate 2 None
   \<and> run_pool scenario_ops empty_pool
     = \<lparr>free_queue = [Some 2, Some 3, Some 0, None, None], full_queue = [],
        actor_slots = [(1, 1)], learner_slots = [], stopped = []\<rparr>
   \<and> all_slots (run_pool scenario_ops empty_pool) = mset [0..<4]
   \<and> length (slot_indices (free_queue (run_pool scenario_ops empty_pool)))
       + length (full_queue (run_pool scenario_ops empty_pool))
       + length (actor_slots (run_pool scenario_ops empty_pool))
       + length (learner_slots (run_pool scenario_ops empty_pool)) = 4"
proof -
  have ok: "init_models_and_states scenario_flags scenario_fs scenario_fresh
            = Inr (scenario_fresh\<lparr>actor_exploration_model := None,
                                   learner_exploration_model := None\<rparr>)"
    by (rule init_no_checkpoint) (simp add: scenario_flags_def)
  have u4: "[0..<4] = [0, 1, 2, 3]" by (simp add: upt_rec)
  have r2: "replicate 2 None = [None, None]" by (simp add: numeral_2_eq_2)
  have n: "nat (num_buffers scenario_flags) = 4" "nat (num_actors scenario_flags) = 2"
    by (simp_all add: scenario_flags_def)
  have p: "op_puts scenario_ops = map Some [0..<4] @ replicate 2 None"
    by (simp add: scenario_ops_def u4 r2)
  have r: "run_pool scenario_ops empty_pool
     = \<lparr>free_queue = [Some 2, Some 3, Some 0, None, None], full_queue = [],
        actor_slots = [(1, 1)], learner_slots = [], stopped = []\<rparr>"
    by (simp add: scenario_ops_def empty_pool_def)
  note t = pool_conservation [of scenario_flags scenario_fs scenario_fresh _ "Completed 0" 4
      scenario_ops 2]
  from t ok have tp: "train_puts (fst (train scenario_flags scenario_fs scenario_fresh (Completed 0)))
     = [Some 0, Some 1, Some 2, Some 3, None, None]"
    by (simp add: n u4 r2)
  from t p have c: "all_slots (run_pool scenario_ops empty_pool) = mset [0..<4]"
    and d: "length (slot_indices (free_queue (run_pool scenario_ops empty_pool)))
       + length (full_queue (run_pool scenario_ops empty_pool))
       + length (actor_slots (run_pool scenario_ops empty_pool))
       + length (learner_slots (run_pool scenario_ops empty_pool)) = 4"
    by blast+
  from ok tp p r c d show ?thesis by blast
qed

text \<open>
  Claim C5 as stated counts the size of the free queue. One slot, one actor: the actor owns
  slot 0 when \<open>train\<close> puts the sentinel, so the free queue has one entry and one slot is
  owned: the sum is 2, not 1.
\<close>

theorem pool_sentinel_counterexample:
  "op_puts [Train_put (Some 0), Acquire_free 0, Train_put None]
     = map Some [0..<1] @ replicate 1 None
   \<and> run_pool [Train_put (Some 0), Acquire_free 0, Train_put None] empty_pool
     = \<lparr>free_queue = [None], full_queue = [], actor_slots = [(0, 0)], learner_slots = [],
        stopped = []\<rparr>
   \<and> length (free_queue (run_pool [Train_put (Some 0), Acquire_free 0, Train_put None] empty_pool))
     + length (full_queue (run_pool [Train_put (Some 0), Acquire_free 0, Train_put None] empty_pool))
     + length (actor_slots (run_pool [Train_put (Some 0), Acquire_free 0, Train_put None] empty_pool))
     + length (learner_slots (run_pool [Train_put (Some 0), Acquire_free 0, Train_put None] empty_pool))
     \<noteq> 1"
  by (simp add: empty_pool_def)


section \<open>Properties of the lock of the learning step\<close>


lemma holder_inside_initial: "holder_inside initial_learn_state"
  by (simp add: holder_inside_def initial_learn_state_def)

lemma serial_initial: "serial initial_learn_state"
  unfolding serial_def
  by (rule exI [of _ "[]"]) (simp add: initial_learn_state_def open_section_def)

lemma holder_inside_step:
  assumes h: "holder_inside s"
  shows "holder_inside (learn_step i s)"
proof (cases "lock_pcs s i")
  case Idle
  show ?thesis
  proof (cases "lock s")
    case None
    have no: "\<And>j. \<not> (\<exists>k. lock_pcs s j = Holding k)"
      using h None by (simp add: holder_inside_def)
    have st: "learn_step i s = s\<lparr>lock := Some i, lock_pcs := (lock_pcs s)(i := Holding 0),
                        trace := trace s @ [(i, Acquire)]\<rparr>"
      using Idle None by (simp add: learn_step_def)
    show ?thesis unfolding st holder_inside_def using no by auto
  next
    case (Some j)
    then show ?thesis using h Idle by (simp add: learn_step_def)
  qed
next
  case (Holding k)
  then have l: "lock s = Some i" using h unfolding holder_inside_def by blast
  have others: "\<And>j. j \<noteq> i \<Longrightarrow> \<not> (\<exists>k. lock_pcs s j = Holding k)"
    using h l unfolding holder_inside_def by auto
  show ?thesis
  proof (cases "k < length learn_body")
    case True
    have st: "learn_step i s = s\<lparr>lock_pcs := (lock_pcs s)(i := Holding (Suc k)),
                 trace := trace s @ [(i, Act (learn_body ! k))]\<rparr>"
      using Holding True by (simp add: learn_step_def)
    show ?thesis unfolding st holder_inside_def using l others by auto
  next
    case False
    have st: "learn_step i s = s\<lparr>lock := None, lock_pcs := (lock_pcs s)(i := Idle),
                 trace := trace s @ [(i, Release)]\<rparr>"
      using Holding False by (simp add: learn_step_def)
    show ?thesis unfolding st holder_inside_def using others by auto
  qed
qed

lemma serial_step:
  assumes h: "holder_inside s" and t: "serial s"
  shows "serial (learn_step i s)"
proof -
  obtain js where js: "trace s = concat (map critical_section js) @ open_section s"
    using t unfolding serial_def by blast
  show ?thesis
  proof (cases "lock_pcs s i")
    case Idle
    show ?thesis
    proof (cases "lock s")
      case None
      have st: "learn_step i s = s\<lparr>lock := Some i, lock_pcs := (lock_pcs s)(i := Holding 0),
                        trace := trace s @ [(i, Acquire)]\<rparr>"
        using Idle None by (simp add: learn_step_def)
      have o: "open_section s = []" using None by (simp add: open_section_def)
      have o': "open_section (learn_step i s) = [(i, Acquire)]"
        unfolding st by (simp add: open_section_def)
      have "trace (learn_step i s) = concat (map critical_section js) @ open_section (learn_step i s)"
        unfolding o' unfolding st using js o by simp
      then show ?thesis unfolding serial_def by blast
    next
      case (Some j)
      then show ?thesis using t Idle by (simp add: learn_step_def)
    qed
  next
    case (Holding k)
    then have l: "lock s = Some i" using h unfolding holder_inside_def by blast
    have o: "open_section s = (i, Acquire) # map (\<lambda>a. (i, Act a)) (take k learn_body)"
      using l Holding by (simp add: open_section_def)
    show ?thesis
    proof (cases "k < length learn_body")
      case True
      have st: "learn_step i s = s\<lparr>lock_pcs := (lock_pcs s)(i := Holding (Suc k)),
                 trace := trace s @ [(i, Act (learn_body ! k))]\<rparr>"
        using Holding True by (simp add: learn_step_def)
      have o': "open_section (learn_step i s)
                = (i, Acquire) # map (\<lambda>a. (i, Act a)) (take (Suc k) learn_body)"
        unfolding st using l by (simp add: open_section_def)
      have "take (Suc k) learn_body = take k learn_body @ [learn_body ! k]"
        using True by (rule take_Suc_conv_app_nth)
      then have "trace (learn_step i s)
                 = concat (map critical_section js) @ open_section (learn_step i s)"
        unfolding o' unfolding st using js o by simp
      then show ?thesis unfolding serial_def by blast
    next
      case False
      have st: "learn_step i s = s\<lparr>lock := None, lock_pcs := (lock_pcs s)(i := Idle),
                 trace := trace s @ [(i, Release)]\<rparr>"
        using Holding False by (simp add: learn_step_def)
      have o': "open_section (learn_step i s) = []"
        unfolding st by (simp add: open_section_def)
      have tk: "take k learn_body = learn_body" using False by simp
      have "trace (learn_step i s) = concat (map critical_section (js @ [i]))"
        unfolding st using js o tk by (simp add: critical_section_def)
      then have "trace (learn_step i s)
                 = concat (map critical_section (js @ [i])) @ open_section (learn_step i s)"
        using o' by simp
      then show ?thesis unfolding serial_def by blast
    qed
  qed
qed

lemma invariants_run:
  "holder_inside s \<Longrightarrow> serial s
   \<Longrightarrow> holder_inside (run_learn sched s) \<and> serial (run_learn sched s)"
proof (induction sched arbitrary: s)
  case Nil
  then show ?case by simp
next
  case (Cons i sched)
  have "holder_inside (learn_step i s)" using Cons.prems(1) by (rule holder_inside_step)
  moreover have "serial (learn_step i s)" using Cons.prems by (rule serial_step)
  ultimately show ?case using Cons.IH by simp
qed

lemma critical_section_eq:
  "critical_section i =
     [(i, Acquire), (i, Act Compute_loss), (i, Act Scheduler_step),
      (i, Act (Zero_grad 0)), (i, Act (Zero_grad 1)), (i, Act (Zero_grad 2)),
      (i, Act Backward),
      (i, Act (Clip_grad_norm 0)), (i, Act (Clip_grad_norm 1)), (i, Act (Clip_grad_norm 2)),
      (i, Act (Optimizer_step 0)), (i, Act (Optimizer_step 1)), (i, Act (Optimizer_step 2)),
      (i, Act Load_state_dict), (i, Release)]"
  by (simp add: critical_section_def learn_body_def)

text \<open>
  Claim C8. All learner threads enter \<open>learn\<close> through its one default lock. Under every
  interleaving, the events of the learning steps form a sequence of complete critical
  sections, each run by a single thread from acquiring the lock to releasing it, followed
  by the section that is open, if any; two threads are never inside at once. So the
  optimiser steps and the publication of one call are never interleaved with those of
  another thread, and within a section the publication (\<open>Load_state_dict\<close>) comes after the
  optimiser steps and before the lock is released.
\<close>

theorem learn_serialized:
  "(\<exists>js. trace (run_learn sched initial_learn_state)
            = concat (map critical_section js) @ open_section (run_learn sched initial_learn_state))
   \<and> (lock_pcs (run_learn sched initial_learn_state) i = Holding k
        \<and> lock_pcs (run_learn sched initial_learn_state) j = Holding k' \<longrightarrow> i = j)
   \<and> critical_section i =
       [(i, Acquire), (i, Act Compute_loss), (i, Act Scheduler_step),
        (i, Act (Zero_grad 0)), (i, Act (Zero_grad 1)), (i, Act (Zero_grad 2)),
        (i, Act Backward),
        (i, Act (Clip_grad_norm 0)), (i, Act (Clip_grad_norm 1)), (i, Act (Clip_grad_norm 2)),
        (i, Act (Optimizer_step 0)), (i, Act (Optimizer_step 1)), (i, Act (Optimizer_step 2)),
        (i, Act Load_state_dict), (i, Release)]"
proof -
  let ?s = "run_learn sched initial_learn_state"
  have inv: "holder_inside ?s \<and> serial ?s"
    using holder_inside_initial serial_initial by (rule invariants_run)
  then have a: "\<exists>js. trace ?s = concat (map critical_section js) @ open_section ?s"
    by (simp add: serial_def)
  have b: "lock_pcs ?s i = Holding k \<and> lock_pcs ?s j = Holding k' \<longrightarrow> i = j"
  proof
    assume p: "lock_pcs ?s i = Holding k \<and> lock_pcs ?s j = Holding k'"
    from inv have h: "holder_inside ?s" by blast
    have "lock ?s = Some i" using h p unfolding holder_inside_def by blast
    moreover have "lock ?s = Some j" using h p unfolding holder_inside_def by blast
    ultimately show "i = j" by simp
  qed
  from a b critical_section_eq [of i] show ?thesis by blast
qed


text \<open>
  Thread 0 holds the lock and has computed the loss; the two steps of thread 1 in between
  wait for the lock and leave no event.
\<close>

theorem learn_serialized_witness:
  "lock_pcs (run_learn [0, 1, 0, 1] initial_learn_state) 0 = Holding 1
   \<and> lock_pcs (run_learn [0, 1, 0, 1] initial_learn_state) 1 = Idle
   \<and> trace (run_learn [0, 1, 0, 1] initial_learn_state) = [(0, Acquire), (0, Act Compute_loss)]
   \<and> open_section (run_learn [0, 1, 0, 1] initial_learn_state)
       = [(0, Acquire), (0, Act Compute_loss)]
   \<and> (\<exists>js. trace (run_learn [0, 1, 0, 1] initial_learn_state)
            = concat (map critical_section js)
              @ open_section (run_learn [0, 1, 0, 1] initial_learn_state))"
proof -
  have b: "learn_body ! 0 = Compute_loss" "length learn_body = 13" "learn_body \<noteq> []"
    by (simp_all add: learn_body_def)
  have r: "run_learn [0, 1, 0, 1] initial_learn_state
           = \<lparr>lock = Some 0, lock_pcs = (\<lambda>_. Idle)(0 := Holding 1),
              trace = [(0, Acquire), (0, Act Compute_loss)]\<rparr>"
    by (simp add: initial_learn_state_def learn_step_def b)
  have t1: "take (Suc 0) learn_body = [Compute_loss]" by (simp add: learn_body_def)
  have p: "lock_pcs (run_learn [0, 1, 0, 1] initial_learn_state) 0 = Holding 1"
    and q: "lock_pcs (run_learn [0, 1, 0, 1] initial_learn_state) 1 = Idle"
    and tr: "trace (run_learn [0, 1, 0, 1] initial_learn_state)
             = [(0, Acquire), (0, Act Compute_loss)]"
    and o: "open_section (run_learn [0, 1, 0, 1] initial_learn_state)
            = [(0, Acquire), (0, Act Compute_loss)]"
    unfolding r by (simp_all add: open_section_def t1)
  from learn_serialized [of "[0, 1, 0, 1]" 0 1 0 1]
  have e: "\<exists>js. trace (run_learn [0, 1, 0, 1] initial_learn_state)
            = concat (map critical_section js)
              @ open_section (run_learn [0, 1, 0, 1] initial_learn_state)"
    by blast
  from p q tr o e show ?thesis by blast
qed

end
